theory Spec2Isabelle
  imports Complex_Main
begin

section \<open>The runtime's Date object\<close>

text \<open>
  The calendar code of the repository (\<^verbatim>\<open>src/src/screens/CalendarScreen.tsx\<close> and the
  home screen in \<^verbatim>\<open>src/unnamed/part_000\<close>) computes with JavaScript \<^verbatim>\<open>Date\<close>
  objects.  A Date holds a time value: milliseconds since the epoch in UTC, or NaN
  (an invalid date).  The calendar functions below are the ones of ECMA-262
  (Day, TimeWithinDay, DayFromYear, YearFromTime, MonthFromTime, DateFromTime,
  MakeDay, MakeDate).  Time values are taken inside the range that TimeClip accepts.
\<close>

definition msPerDay :: int where
  "msPerDay = 86400000"

definition Day :: "int \<Rightarrow> int" where
  "Day t = t div msPerDay"

definition TimeWithinDay :: "int \<Rightarrow> int" where
  "TimeWithinDay t = t mod msPerDay"

definition DaysInYear :: "int \<Rightarrow> int" where
  "DaysInYear y =
     (if y mod 4 \<noteq> 0 then 365
      else if y mod 100 \<noteq> 0 then 366
      else if y mod 400 \<noteq> 0 then 365
      else 366)"

definition DayFromYear :: "int \<Rightarrow> int" where
  "DayFromYear y =
     365 * (y - 1970) + (y - 1969) div 4 - (y - 1901) div 100 + (y - 1601) div 400"

text \<open>
  ECMA-262 takes YearFromTime to be the largest year whose first day is not after
  the given day.  It is computed here from an estimate that is off by at most one
  (lemma \<open>YearFromDay_spec\<close> below shows that the result is that year).
\<close>

definition YearFromDay :: "int \<Rightarrow> int" where
  "YearFromDay d =
     (let y = 1970 + (400 * d) div 146097 in
      if d < DayFromYear y then y - 1
      else if DayFromYear (y + 1) \<le> d then y + 1
      else y)"

definition InLeapYear :: "int \<Rightarrow> int" where
  "InLeapYear y = (if DaysInYear y = 366 then 1 else 0)"

text \<open>The day within the year on which month \<open>m\<close> (0 to 11) starts.\<close>

definition monthStart :: "int \<Rightarrow> int \<Rightarrow> int" where
  "monthStart m leap =
     (if m = 0 then 0
      else if m = 1 then 31
      else if m = 2 then 59 + leap
      else if m = 3 then 90 + leap
      else if m = 4 then 120 + leap
      else if m = 5 then 151 + leap
      else if m = 6 then 181 + leap
      else if m = 7 then 212 + leap
      else if m = 8 then 243 + leap
      else if m = 9 then 273 + leap
      else if m = 10 then 304 + leap
      else 334 + leap)"

definition DayWithinYear :: "int \<Rightarrow> int" where
  "DayWithinYear d = d - DayFromYear (YearFromDay d)"

definition MonthFromDay :: "int \<Rightarrow> int" where
  "MonthFromDay d =
     (let w = DayWithinYear d; leap = InLeapYear (YearFromDay d) in
      if w < 31 then 0
      else if w < 59 + leap then 1
      else if w < 90 + leap then 2
      else if w < 120 + leap then 3
      else if w < 151 + leap then 4
      else if w < 181 + leap then 5
      else if w < 212 + leap then 6
      else if w < 243 + leap then 7
      else if w < 273 + leap then 8
      else if w < 304 + leap then 9
      else if w < 334 + leap then 10
      else 11)"

definition DateFromDay :: "int \<Rightarrow> int" where
  "DateFromDay d =
     DayWithinYear d - monthStart (MonthFromDay d) (InLeapYear (YearFromDay d)) + 1"

definition YearFromTime :: "int \<Rightarrow> int" where
  "YearFromTime t = YearFromDay (Day t)"

definition MonthFromTime :: "int \<Rightarrow> int" where
  "MonthFromTime t = MonthFromDay (Day t)"

definition DateFromTime :: "int \<Rightarrow> int" where
  "DateFromTime t = DateFromDay (Day t)"

definition MakeDay :: "int \<Rightarrow> int \<Rightarrow> int \<Rightarrow> int" where
  "MakeDay year month date =
     (let ym = year + month div 12; mn = month mod 12 in
      DayFromYear ym + monthStart mn (InLeapYear ym) + date - 1)"

definition MakeDate :: "int \<Rightarrow> int \<Rightarrow> int" where
  "MakeDate day time = day * msPerDay + time"

text \<open>
  The local time zone of the device.  The runtime obtains local time from a UTC
  instant by adding the offset that is in force in the zone at that instant
  (\<^verbatim>\<open>LocalTZA(t, true)\<close> of ECMA-262), and it obtains the UTC instant of a local time
  by subtracting the offset with which the zone reads that local time
  (\<^verbatim>\<open>LocalTZA(t, false)\<close>).  The two offsets change where daylight-saving time begins
  and ends; which offset reads a local time that a change skips or repeats is part of
  the second function.  Both are milliseconds, and both are parameters of every
  function that reads or writes local calendar fields.
\<close>

record zone =
  utc_offset :: "int \<Rightarrow> int"
  local_offset :: "int \<Rightarrow> int"

definition LocalTime :: "zone \<Rightarrow> int \<Rightarrow> int" where
  "LocalTime tz t = t + utc_offset tz t"

definition UTC :: "zone \<Rightarrow> int \<Rightarrow> int" where
  "UTC tz t = t - local_offset tz t"

datatype Date = Date int | InvalidDate

text \<open>
  Numbers read from a Date are \<open>int option\<close>, \<open>None\<close> being NaN.  Strict equality
  of two such numbers is false as soon as one of them is NaN, and so is every
  relational comparison of two Dates of which one is invalid.
\<close>

fun num_eq :: "int option \<Rightarrow> int option \<Rightarrow> bool" where
  "num_eq (Some a) (Some b) = (a = b)"
| "num_eq _ _ = False"

fun getTime :: "Date \<Rightarrow> int option" where
  "getTime (Date t) = Some t"
| "getTime InvalidDate = None"

fun getFullYear :: "zone \<Rightarrow> Date \<Rightarrow> int option" where
  "getFullYear tz (Date t) = Some (YearFromTime (LocalTime tz t))"
| "getFullYear tz InvalidDate = None"

fun getMonth :: "zone \<Rightarrow> Date \<Rightarrow> int option" where
  "getMonth tz (Date t) = Some (MonthFromTime (LocalTime tz t))"
| "getMonth tz InvalidDate = None"

fun getDate :: "zone \<Rightarrow> Date \<Rightarrow> int option" where
  "getDate tz (Date t) = Some (DateFromTime (LocalTime tz t))"
| "getDate tz InvalidDate = None"

fun date_lt :: "Date \<Rightarrow> Date \<Rightarrow> bool" where
  "date_lt (Date a) (Date b) = (a < b)"
| "date_lt _ _ = False"

fun date_le :: "Date \<Rightarrow> Date \<Rightarrow> bool" where
  "date_le (Date a) (Date b) = (a \<le> b)"
| "date_le _ _ = False"

definition date_gt :: "Date \<Rightarrow> Date \<Rightarrow> bool" where
  "date_gt a b = date_lt b a"

definition date_ge :: "Date \<Rightarrow> Date \<Rightarrow> bool" where
  "date_ge a b = date_le b a"

text \<open>
  \<^verbatim>\<open>d.setDate(n)\<close> and \<^verbatim>\<open>d.setMonth(n)\<close>: the local calendar fields are recomputed by
  MakeDay, which carries a day or month out of range into the next month or year,
  the local time within the day is kept, and the local time so made is read back
  as a UTC instant.
\<close>

fun setDate :: "zone \<Rightarrow> Date \<Rightarrow> int option \<Rightarrow> Date" where
  "setDate tz (Date t) (Some dt) =
     (let lt = LocalTime tz t in
      Date (UTC tz (MakeDate (MakeDay (YearFromTime lt) (MonthFromTime lt) dt)
                             (TimeWithinDay lt))))"
| "setDate tz _ _ = InvalidDate"

fun setMonth :: "zone \<Rightarrow> Date \<Rightarrow> int option \<Rightarrow> Date" where
  "setMonth tz (Date t) (Some m) =
     (let lt = LocalTime tz t in
      Date (UTC tz (MakeDate (MakeDay (YearFromTime lt) m (DateFromTime lt))
                             (TimeWithinDay lt))))"
| "setMonth tz _ _ = InvalidDate"

fun num_add :: "int option \<Rightarrow> int \<Rightarrow> int option" where
  "num_add (Some a) k = Some (a + k)"
| "num_add None k = None"


section \<open>Date strings\<close>

text \<open>
  \<^verbatim>\<open>new Date(s)\<close> on a string, for the date-time string format of ECMA-262: a date
  \<^verbatim>\<open>YYYY\<close>, \<^verbatim>\<open>YYYY-MM\<close> or \<^verbatim>\<open>YYYY-MM-DD\<close>, alone (read as UTC midnight) or followed by
  \<^verbatim>\<open>T\<close> and a time \<^verbatim>\<open>HH:mm\<close>, \<^verbatim>\<open>HH:mm:ss\<close> or \<^verbatim>\<open>HH:mm:ss.sss\<close> (read as local time),
  which \<^verbatim>\<open>Z\<close> or an offset \<^verbatim>\<open>+HH:mm\<close> or \<^verbatim>\<open>-HH:mm\<close> may follow (read as UTC, or at
  that offset).  Every other string gives an invalid date here (what the runtime does
  with other formats is implementation-defined).
\<close>

definition digit_of :: "char \<Rightarrow> int option" where
  "digit_of c =
     (let n = (of_char c :: nat) in
      if 48 \<le> n \<and> n \<le> 57 then Some (int n - 48) else None)"

fun digits_value :: "string \<Rightarrow> int \<Rightarrow> int option" where
  "digits_value [] acc = Some acc"
| "digits_value (c # cs) acc =
     (case digit_of c of
        None \<Rightarrow> None
      | Some v \<Rightarrow> digits_value cs (10 * acc + v))"

definition parse_digits :: "string \<Rightarrow> int option" where
  "parse_digits s = (if s = [] then None else digits_value s 0)"

text \<open>The day number of a date \<^verbatim>\<open>YYYY\<close>, \<^verbatim>\<open>YYYY-MM\<close> or \<^verbatim>\<open>YYYY-MM-DD\<close>.\<close>

definition parse_date_part :: "string \<Rightarrow> int option" where
  "parse_date_part s =
     (if length s = 4 then
        (case parse_digits s of
           Some y \<Rightarrow> Some (MakeDay y 0 1)
         | None \<Rightarrow> None)
      else if length s = 7 \<and> s ! 4 = CHR ''-'' then
        (case (parse_digits (take 4 s), parse_digits (drop 5 s)) of
           (Some y, Some m) \<Rightarrow>
             if 1 \<le> m \<and> m \<le> 12 then Some (MakeDay y (m - 1) 1) else None
         | _ \<Rightarrow> None)
      else if length s = 10 \<and> s ! 4 = CHR ''-'' \<and> s ! 7 = CHR ''-'' then
        (case (parse_digits (take 4 s), parse_digits (take 2 (drop 5 s)),
               parse_digits (drop 8 s)) of
           (Some y, Some m, Some d) \<Rightarrow>
             if 1 \<le> m \<and> m \<le> 12 \<and> 1 \<le> d \<and> d \<le> 31
             then Some (MakeDay y (m - 1) d) else None
         | _ \<Rightarrow> None)
      else None)"

text \<open>
  The milliseconds within the day of a time \<^verbatim>\<open>HH:mm\<close>, \<^verbatim>\<open>HH:mm:ss\<close> or
  \<^verbatim>\<open>HH:mm:ss.sss\<close>; \<^verbatim>\<open>24:00:00\<close> is the end of the day.
\<close>

definition parse_time_part :: "string \<Rightarrow> int option" where
  "parse_time_part s =
     (if (length s = 5 \<or> length s = 8 \<or> length s = 12) \<and> s ! 2 = CHR '':'' \<and>
         (if 8 \<le> length s then s ! 5 = CHR '':'' else True) \<and>
         (if length s = 12 then s ! 8 = CHR ''.'' else True) then
        (case (parse_digits (take 2 s), parse_digits (take 2 (drop 3 s)),
               if 8 \<le> length s then parse_digits (take 2 (drop 6 s)) else Some 0,
               if length s = 12 then parse_digits (drop 9 s) else Some 0) of
           (Some h, Some mi, Some sec, Some ms) \<Rightarrow>
             if h \<le> 23 \<and> mi \<le> 59 \<and> sec \<le> 59 \<or> h = 24 \<and> mi = 0 \<and> sec = 0 \<and> ms = 0
             then Some (h * 3600000 + mi * 60000 + sec * 1000 + ms) else None
         | _ \<Rightarrow> None)
      else None)"

text \<open>The milliseconds of an offset \<^verbatim>\<open>+HH:mm\<close> or \<^verbatim>\<open>-HH:mm\<close>.\<close>

definition parse_offset :: "string \<Rightarrow> int option" where
  "parse_offset s =
     (if length s = 6 \<and> (s ! 0 = CHR ''+'' \<or> s ! 0 = CHR ''-'') \<and> s ! 3 = CHR '':'' then
        (case (parse_digits (take 2 (drop 1 s)), parse_digits (drop 4 s)) of
           (Some h, Some mi) \<Rightarrow>
             if h \<le> 23 \<and> mi \<le> 59
             then Some ((if s ! 0 = CHR ''-'' then - 1 else 1) * (h * 3600000 + mi * 60000))
             else None
         | _ \<Rightarrow> None)
      else None)"

definition new_Date :: "zone \<Rightarrow> string \<Rightarrow> Date" where
  "new_Date tz s =
     (let d = takeWhile (\<lambda>c. c \<noteq> CHR ''T'') s;
          r = dropWhile (\<lambda>c. c \<noteq> CHR ''T'') s in
      case parse_date_part d of
        None \<Rightarrow> InvalidDate
      | Some day \<Rightarrow>
          if r = [] then Date (MakeDate day 0)
          else
            (let tm = tl r; n = length tm in
             if tm \<noteq> [] \<and> last tm = CHR ''Z'' then
               (case parse_time_part (butlast tm) of
                  Some ms \<Rightarrow> Date (MakeDate day ms)
                | None \<Rightarrow> InvalidDate)
             else if 6 \<le> n \<and> (tm ! (n - 6) = CHR ''+'' \<or> tm ! (n - 6) = CHR ''-'') then
               (case (parse_time_part (take (n - 6) tm), parse_offset (drop (n - 6) tm)) of
                  (Some ms, Some off) \<Rightarrow> Date (MakeDate day ms - off)
                | _ \<Rightarrow> InvalidDate)
             else
               (case parse_time_part tm of
                  Some ms \<Rightarrow> Date (UTC tz (MakeDate day ms))
                | None \<Rightarrow> InvalidDate)))"

section \<open>The records of the booking table\<close>

text \<open>
  \<^verbatim>\<open>Buchung\<close>, \<^verbatim>\<open>Zimmer\<close> and \<^verbatim>\<open>Gast\<close> as the screens declare them.  The fields
  \<^verbatim>\<open>id\<close> are named \<open>buchung_id\<close>, \<open>zimmer_nr_id\<close> and \<open>gast_nr_id\<close>.  The fields
  that none of the functions below reads (of a booking: prices, deposit, dog, contact,
  note and the creation and update stamps; of a room: status and creation stamp) are
  left out.  \<open>deleted_at\<close> is the soft-delete stamp: absent (\<open>None\<close>) on a live
  booking.
\<close>

record Buchung =
  buchung_id :: int
  zimmer_id :: int
  gast_id :: "int option"
  check_in :: string
  check_out :: string
  anzahl_personen :: int
  status :: string
  verpflegung :: "string option"
  deleted_at :: "string option"

record Zimmer =
  zimmer_nr_id :: int
  nummer :: string

record Gast =
  gast_nr_id :: int
  vorname :: string
  nachname :: string

record DayCellData =
  date :: Date
  dayNumber :: string
  monthYear :: string

text \<open>The two meal-plan values, as UTF-8 bytes (u-umlaut is C3 BC).\<close>

definition Fruehstueck :: string where
  "Fruehstueck = ''Fr'' @ [char_of (195 :: nat), char_of (188 :: nat)] @ ''hst''
     @ [char_of (195 :: nat), char_of (188 :: nat)] @ ''ck''"

definition Halbpension :: string where
  "Halbpension = ''Halbpension''"

section \<open>CalendarScreen.tsx: helper functions\<close>

definition parseDate :: "zone \<Rightarrow> string \<Rightarrow> Date" where
  "parseDate tz dateStr =
     (if CHR ''T'' \<in> set dateStr then new_Date tz dateStr
      else new_Date tz (dateStr @ ''T00:00:00''))"

definition isSameDay :: "zone \<Rightarrow> Date \<Rightarrow> Date \<Rightarrow> bool" where
  "isSameDay tz d1 d2 =
     (num_eq (getFullYear tz d1) (getFullYear tz d2) \<and>
      num_eq (getMonth tz d1) (getMonth tz d2) \<and>
      num_eq (getDate tz d1) (getDate tz d2))"

text \<open>\<^verbatim>\<open>Array.prototype.findIndex\<close>: the first position that satisfies, or -1.\<close>

fun findIndex :: "('a \<Rightarrow> bool) \<Rightarrow> 'a list \<Rightarrow> int" where
  "findIndex P [] = - 1"
| "findIndex P (x # xs) =
     (if P x then 0
      else (let r = findIndex P xs in if r < 0 then - 1 else r + 1))"

definition findDayIndex :: "zone \<Rightarrow> Date \<Rightarrow> DayCellData list \<Rightarrow> int" where
  "findDayIndex tz d days = findIndex (\<lambda>c. isSameDay tz (date c) d) days"

text \<open>Decimal digits of a number, \<^verbatim>\<open>NaN\<close> for NaN; \<^verbatim>\<open>padStart(2, '0')\<close>.\<close>

fun nat_toString :: "nat \<Rightarrow> string" where
  "nat_toString n =
     (if n < 10 then [''0123456789'' ! n]
      else nat_toString (n div 10) @ [''0123456789'' ! (n mod 10)])"

fun num_toString :: "int option \<Rightarrow> string" where
  "num_toString None = ''NaN''"
| "num_toString (Some i) =
     (if i < 0 then CHR ''-'' # nat_toString (nat (- i)) else nat_toString (nat i))"

definition padStart2 :: "string \<Rightarrow> string" where
  "padStart2 s = replicate (2 - length s) CHR ''0'' @ s"

text \<open>\<^verbatim>\<open>s.replace('.', '/')\<close>: the first full stop becomes a slash.\<close>

fun replace_dot :: "string \<Rightarrow> string" where
  "replace_dot [] = []"
| "replace_dot (c # cs) = (if c = CHR ''.'' then CHR ''/'' # cs else c # replace_dot cs)"

text \<open>
  \<open>loc\<close> stands for the runtime's
  \<^verbatim>\<open>toLocaleDateString('de-DE', { month: '2-digit', year: 'numeric' })\<close>; the label it
  produces is shown and never compared.
\<close>

definition formatDayCellData :: "zone \<Rightarrow> (Date \<Rightarrow> string) \<Rightarrow> Date \<Rightarrow> DayCellData" where
  "formatDayCellData tz loc d =
     \<lparr> date = d,
       dayNumber = padStart2 (num_toString (getDate tz d)),
       monthYear = replace_dot (loc d) \<rparr>"

text \<open>
  The loop of \<^verbatim>\<open>generateDaysArray\<close>: \<^verbatim>\<open>while (current <= endDate)\<close> pushes the cell
  of \<open>current\<close> and moves \<open>current\<close> one day on.  The source mutates the one Date
  object \<open>current\<close>; the cell holds a copy of it (\<^verbatim>\<open>new Date(date)\<close> in
  \<^verbatim>\<open>formatDayCellData\<close>), so the cells already pushed keep their dates.  Whether the
  loop ends depends on the zone (\<^verbatim>\<open>setDate\<close> must move \<open>current\<close> forward); the result
  is \<open>None\<close> when it does not end.
\<close>

partial_function (option) days_loop ::
  "zone \<Rightarrow> (Date \<Rightarrow> string) \<Rightarrow> Date \<Rightarrow> Date \<Rightarrow> DayCellData list \<Rightarrow> DayCellData list option" where
  "days_loop tz loc current endDate result =
     (if date_le current endDate
      then days_loop tz loc (setDate tz current (num_add (getDate tz current) 1)) endDate
             (result @ [formatDayCellData tz loc current])
      else Some result)"

text \<open>
  \<^verbatim>\<open>generateDaysArray(pastDays, futureMonths)\<close>.  The function reads the clock twice
  (\<^verbatim>\<open>new Date()\<close> for the start and again for the end); \<open>now1\<close> and \<open>now2\<close> are the two
  readings.
\<close>

definition generateDaysArray ::
  "zone \<Rightarrow> (Date \<Rightarrow> string) \<Rightarrow> int \<Rightarrow> int \<Rightarrow> int \<Rightarrow> int \<Rightarrow> DayCellData list option" where
  "generateDaysArray tz loc now1 now2 pastDays futureMonths =
     (let startDate = setDate tz (Date now1) (num_add (getDate tz (Date now1)) (- pastDays));
          endDate = setMonth tz (Date now2) (num_add (getMonth tz (Date now2)) futureMonths)
      in days_loop tz loc startDate endDate [])"

section \<open>CalendarScreen.tsx: availability, lookup and selection\<close>

text \<open>
  \<^verbatim>\<open>isIntervalAvailableForzimmer(zimmerId, start, end, bookings)\<close>.  \<open>booking_loop\<close> is
  its \<^verbatim>\<open>for (const booking of bookings)\<close>; \<^verbatim>\<open>continue\<close> is the recursive call and
  \<^verbatim>\<open>return false\<close> ends it.  \<^verbatim>\<open>!zimmerId\<close> holds of \<^verbatim>\<open>null\<close> and of \<^verbatim>\<open>0\<close>.
\<close>

fun booking_loop :: "zone \<Rightarrow> int \<Rightarrow> Date \<Rightarrow> Date \<Rightarrow> Buchung list \<Rightarrow> bool" where
  "booking_loop tz zimmerId start end [] = True"
| "booking_loop tz zimmerId start end (booking # bookings) =
     (if zimmer_id booking \<noteq> zimmerId then booking_loop tz zimmerId start end bookings
      else
        (let bookingStart = parseDate tz (check_in booking);
             bookingEnd = parseDate tz (check_out booking) in
         if date_lt start bookingEnd \<and> date_gt end bookingStart then
           (if num_eq (getTime end) (getTime bookingStart) \<or>
               num_eq (getTime start) (getTime bookingEnd)
            then booking_loop tz zimmerId start end bookings
            else False)
         else booking_loop tz zimmerId start end bookings))"

definition isIntervalAvailableForzimmer ::
  "zone \<Rightarrow> int option \<Rightarrow> Date \<Rightarrow> Date \<Rightarrow> Buchung list \<Rightarrow> bool" where
  "isIntervalAvailableForzimmer tz zimmerId start end bookings =
     (case zimmerId of
        None \<Rightarrow> False
      | Some z \<Rightarrow>
          if z = 0 then False
          else if num_eq (getTime start) (getTime end) then True
          else booking_loop tz z start end bookings)"

text \<open>
  \<^verbatim>\<open>getBuchungForDay(dayData, zimmerId, buchungen)\<close>: \<^verbatim>\<open>find\<close> gives the first booking
  that satisfies, \<^verbatim>\<open>null\<close> (\<open>None\<close>) when there is none.
\<close>

definition getBuchungForDay :: "zone \<Rightarrow> DayCellData \<Rightarrow> int \<Rightarrow> Buchung list \<Rightarrow> Buchung option" where
  "getBuchungForDay tz dayData zimmerId buchungen =
     find (\<lambda>b.
        if zimmer_id b \<noteq> zimmerId then False
        else (let start = parseDate tz (check_in b);
                  end = parseDate tz (check_out b) in
              date_ge (date dayData) start \<and> date_le (date dayData) end))
       buchungen"

text \<open>
  The test that \<open>getBuchungForDay\<close> makes of a booking (the callback of its
  \<^verbatim>\<open>find\<close>), under a name: the booking is of the room and the cell's instant is
  between the instants of its check-in and its check-out, both included.
\<close>

definition covers :: "zone \<Rightarrow> DayCellData \<Rightarrow> int \<Rightarrow> Buchung \<Rightarrow> bool" where
  "covers tz dayData zimmerId b =
     (zimmer_id b = zimmerId \<and>
      date_ge (date dayData) (parseDate tz (check_in b)) \<and>
      date_le (date dayData) (parseDate tz (check_out b)))"

text \<open>
  The bookings the calendar works on: \<^verbatim>\<open>buchungen.filter(b => !b.deleted_at)\<close>.  A
  string is falsy when it is absent or empty.
\<close>

fun truthy_string :: "string option \<Rightarrow> bool" where
  "truthy_string None = False"
| "truthy_string (Some s) = (s \<noteq> [])"

definition localBuchungen :: "Buchung list \<Rightarrow> Buchung list" where
  "localBuchungen buchungen = filter (\<lambda>b. \<not> truthy_string (deleted_at b)) buchungen"

text \<open>
  The selection state of the calendar (three \<^verbatim>\<open>useState\<close> cells) and
  \<^verbatim>\<open>handleDayPress(day, zimmerId)\<close>, which returns the state after the tap and the
  alert it raised, if any.  \<open>localB\<close> is the state cell \<^verbatim>\<open>localBuchungen\<close>.
\<close>

record Selection =
  selectedCheckIn :: "DayCellData option"
  selectedCheckOut :: "DayCellData option"
  selectedzimmerId :: "int option"

datatype alert = Intervall_nicht_verfuegbar

definition handleDayPress ::
  "zone \<Rightarrow> Buchung list \<Rightarrow> Selection \<Rightarrow> DayCellData \<Rightarrow> int \<Rightarrow> Selection \<times> alert option" where
  "handleDayPress tz localB st day zimmerId =
     (case selectedCheckIn st of
        None \<Rightarrow>
          if \<not> isIntervalAvailableForzimmer tz (Some zimmerId) (date day) (date day) localB
          then (st, None)
          else (st\<lparr> selectedzimmerId := Some zimmerId, selectedCheckIn := Some day,
                    selectedCheckOut := Some day \<rparr>, None)
      | Some checkIn \<Rightarrow>
          if selectedzimmerId st \<noteq> Some zimmerId then
            (if \<not> isIntervalAvailableForzimmer tz (Some zimmerId) (date day) (date day) localB
             then (st, None)
             else (st\<lparr> selectedzimmerId := Some zimmerId, selectedCheckIn := Some day,
                       selectedCheckOut := Some day \<rparr>, None))
          else if isSameDay tz (date day) (date checkIn) then
            (st\<lparr> selectedCheckOut := Some day \<rparr>, None)
          else if date_ge (date day) (date checkIn) then
            (let isAvailable =
                   isIntervalAvailableForzimmer tz (Some zimmerId) (date checkIn) (date day)
                     localB;
                 bookingAtDay = getBuchungForDay tz day zimmerId localB in
             if isAvailable \<or>
                (case bookingAtDay of
                   None \<Rightarrow> False
                 | Some b \<Rightarrow> isSameDay tz (date day) (parseDate tz (check_in b)))
             then (st\<lparr> selectedCheckOut := Some day \<rparr>, None)
             else (st, Some Intervall_nicht_verfuegbar))
          else (st\<lparr> selectedCheckIn := Some day, selectedCheckOut := Some day \<rparr>, None))"

text \<open>The state before any tap, and a sequence of taps on cells of one room.\<close>

definition Empty_Selection :: Selection where
  "Empty_Selection =
     \<lparr> selectedCheckIn = None, selectedCheckOut = None, selectedzimmerId = None \<rparr>"

fun taps :: "zone \<Rightarrow> Buchung list \<Rightarrow> int \<Rightarrow> Selection \<Rightarrow> DayCellData list \<Rightarrow> Selection" where
  "taps tz bs zimmerId st [] = st"
| "taps tz bs zimmerId st (day # days) =
     taps tz bs zimmerId (fst (handleDayPress tz bs st day zimmerId)) days"

section \<open>CalendarScreen.tsx: the booking blocks\<close>

text \<open>
  The geometry, label and colour that \<^verbatim>\<open>BookingBlockRow\<close> computes for a booking;
  \<open>None\<close> is the \<^verbatim>\<open>return null\<close> of a booking that starts or ends outside the grid.
\<close>

definition DAY_WIDTH :: rat where
  "DAY_WIDTH = 60"

record Block =
  left :: rat
  width :: rat
  label :: string
  backgroundColor :: string

definition bookingBlock :: "zone \<Rightarrow> DayCellData list \<Rightarrow> Gast list \<Rightarrow> Buchung \<Rightarrow> Block option" where
  "bookingBlock tz daysArray gaeste b =
     (let startDate = parseDate tz (check_in b);
          endDate = parseDate tz (check_out b);
          startIndex = findDayIndex tz startDate daysArray;
          endIndex = findDayIndex tz endDate daysArray in
      if startIndex < 0 \<or> endIndex < 0 then None
      else
        (let blockLeft = of_int startIndex * DAY_WIDTH;
             blockWidth = of_int (endIndex - startIndex + 1) * DAY_WIDTH;
             geometry =
               (if startIndex = endIndex
                then (blockLeft + DAY_WIDTH / 2, DAY_WIDTH / 2)
                else (blockLeft + DAY_WIDTH / 2, blockWidth - DAY_WIDTH));
             guestName =
               (case find (\<lambda>g. Some (gast_nr_id g) = gast_id b) gaeste of
                  Some g \<Rightarrow> vorname g @ '' '' @ nachname g
                | None \<Rightarrow> ''Unbekannt'');
             verpflegungAbbr =
               (if verpflegung b = Some Fruehstueck then ''B&B''
                else if verpflegung b = Some Halbpension then ''HP''
                else (case verpflegung b of Some v \<Rightarrow> v | None \<Rightarrow> []));
             blockColor =
               (if status b = ''belegt'' then ''#ffcccc''
                else if status b = ''anzahlung'' then ''#ffffcc''
                else if status b = ''booking'' then ''#ccccff''
                else ''#ccffcc'')
         in Some \<lparr> left = fst geometry, width = snd geometry,
                   label = guestName @ '' ('' @ num_toString (Some (anzahl_personen b))
                             @ ''P) '' @ verpflegungAbbr,
                   backgroundColor = blockColor \<rparr>))"

section \<open>The home screen (src/unnamed/part_000) and the loading of bookings\<close>

text \<open>
  \<open>rows\<close> is the content of the table \<^verbatim>\<open>buchungen\<close> of the store.  The application
  (\<^verbatim>\<open>App.tsx\<close>, \<^verbatim>\<open>syncFullBuchungen\<close>) selects the rows whose \<^verbatim>\<open>deleted_at\<close> is null
  and hands them to the calendar; the home screen's \<^verbatim>\<open>fetchData\<close> selects every row.
\<close>

definition syncFullBuchungen :: "Buchung list \<Rightarrow> Buchung list" where
  "syncFullBuchungen rows = filter (\<lambda>b. deleted_at b = None) rows"

definition fetchData :: "Buchung list \<Rightarrow> Buchung list" where
  "fetchData rows = rows"

text \<open>
  The five summaries of the home screen for \<open>selectedDate\<close>.  The home screen reads a
  booking's dates with \<^verbatim>\<open>new Date(b.check_in)\<close>, not with \<^verbatim>\<open>parseDate\<close>.
  \<^verbatim>\<open>reduce((sum, b) => sum + b.anzahl_personen, 0)\<close> is \<open>persons\<close>.
\<close>

definition persons :: "Buchung list \<Rightarrow> int" where
  "persons bs = foldl (\<lambda>sum b. sum + anzahl_personen b) 0 bs"

definition summary_entry :: "Gast list \<Rightarrow> Zimmer list \<Rightarrow> Buchung \<Rightarrow> string" where
  "summary_entry gaeste zimmer b =
     (let guest = find (\<lambda>g. Some (gast_nr_id g) = gast_id b) gaeste;
          roomNum = (case find (\<lambda>z. zimmer_nr_id z = zimmer_id b) zimmer of
                       Some z \<Rightarrow> nummer z
                     | None \<Rightarrow> [])
      in ''Zimmer '' @ roomNum @ '' - '' @
         (case guest of
            Some g \<Rightarrow> vorname g @ '' '' @ nachname g
          | None \<Rightarrow> ''Unbekannt''))"

definition fruehstueck_bookings :: "zone \<Rightarrow> Date \<Rightarrow> Buchung list \<Rightarrow> Buchung list" where
  "fruehstueck_bookings tz selectedDate buchungen =
     filter (\<lambda>b. (verpflegung b = Some Fruehstueck \<or> verpflegung b = Some Halbpension) \<and>
                 date_le (new_Date tz (check_in b)) selectedDate \<and>
                 date_ge (new_Date tz (check_out b)) selectedDate) buchungen"

definition halbpension_bookings :: "zone \<Rightarrow> Date \<Rightarrow> Buchung list \<Rightarrow> Buchung list" where
  "halbpension_bookings tz selectedDate buchungen =
     filter (\<lambda>b. verpflegung b = Some Halbpension \<and>
                 date_le (new_Date tz (check_in b)) selectedDate \<and>
                 date_ge (new_Date tz (check_out b)) selectedDate) buchungen"

definition checkIn_bookings :: "zone \<Rightarrow> Date \<Rightarrow> Buchung list \<Rightarrow> Buchung list" where
  "checkIn_bookings tz selectedDate buchungen =
     filter (\<lambda>b. isSameDay tz (new_Date tz (check_in b)) selectedDate) buchungen"

definition checkOut_bookings :: "zone \<Rightarrow> Date \<Rightarrow> Buchung list \<Rightarrow> Buchung list" where
  "checkOut_bookings tz selectedDate buchungen =
     filter (\<lambda>b. isSameDay tz (new_Date tz (check_out b)) selectedDate) buchungen"

definition anwesende_bookings :: "zone \<Rightarrow> Date \<Rightarrow> Buchung list \<Rightarrow> Buchung list" where
  "anwesende_bookings tz selectedDate buchungen =
     filter (\<lambda>b. date_gt selectedDate (new_Date tz (check_in b)) \<and>
                 date_lt selectedDate (new_Date tz (check_out b))) buchungen"

text \<open>
  What the check-in summary shows: the count of persons and one line per booking
  (the booking itself is what a press on the line opens).
\<close>

definition checkIns_summary ::
  "zone \<Rightarrow> Date \<Rightarrow> Buchung list \<Rightarrow> Gast list \<Rightarrow> Zimmer list \<Rightarrow> int \<times> (Buchung \<times> string) list" where
  "checkIns_summary tz selectedDate buchungen gaeste zimmer =
     (persons (checkIn_bookings tz selectedDate buchungen),
      map (\<lambda>b. (b, summary_entry gaeste zimmer b)) (checkIn_bookings tz selectedDate buchungen))"

section \<open>The calendar days of the data model\<close>

text \<open>
  In the data model of the spec a booking's check-in and check-out are calendar days,
  which the booking table writes as date strings \<^verbatim>\<open>YYYY-MM-DD\<close>.  The definitions of
  this section follow the spec's words, not a function of the repository: the day
  number that a booking's date string writes, the calendar day of an instant in the
  zone, the range of the days of a booking (half-open, without the check-out day, and
  inclusive), and the invariant of the bookings.
\<close>

definition check_in_day :: "Buchung \<Rightarrow> int option" where
  "check_in_day b = parse_date_part (check_in b)"

definition check_out_day :: "Buchung \<Rightarrow> int option" where
  "check_out_day b = parse_date_part (check_out b)"

fun local_day :: "zone \<Rightarrow> Date \<Rightarrow> int option" where
  "local_day tz (Date t) = Some (Day (LocalTime tz t))"
| "local_day tz InvalidDate = None"

definition occupies :: "Buchung \<Rightarrow> int \<Rightarrow> bool" where
  "occupies b day =
     (case (check_in_day b, check_out_day b) of
        (Some ci, Some co) \<Rightarrow> ci \<le> day \<and> day < co
      | _ \<Rightarrow> False)"

definition in_inclusive_range :: "Buchung \<Rightarrow> int \<Rightarrow> bool" where
  "in_inclusive_range b day =
     (case (check_in_day b, check_out_day b) of
        (Some ci, Some co) \<Rightarrow> ci \<le> day \<and> day \<le> co
      | _ \<Rightarrow> False)"

text \<open>The booking's dates are written as dates, not as timestamps.\<close>

definition date_strings :: "Buchung \<Rightarrow> bool" where
  "date_strings b = (CHR ''T'' \<notin> set (check_in b) \<and> CHR ''T'' \<notin> set (check_out b))"

text \<open>
  The invariant that the spec states for the bookings: no two bookings of a room that
  are not deleted overlap in their interiors; they may touch at one shared boundary
  day.  It is written over the bookings that the calendar keeps (\<open>localBuchungen\<close>): of
  any two of them in one room, the check-out day of one is no later than the check-in
  day of the other.
\<close>

definition apart :: "Buchung \<Rightarrow> Buchung \<Rightarrow> bool" where
  "apart b c =
     (case (check_in_day b, check_out_day b, check_in_day c, check_out_day c) of
        (Some bi, Some bo, Some ci, Some co) \<Rightarrow> bo \<le> ci \<or> co \<le> bi
      | _ \<Rightarrow> True)"

fun pairwise_apart :: "Buchung list \<Rightarrow> bool" where
  "pairwise_apart [] = True"
| "pairwise_apart (b # bs) =
     (list_all (\<lambda>c. zimmer_id c \<noteq> zimmer_id b \<or> apart b c) bs \<and> pairwise_apart bs)"

definition no_interior_overlap :: "Buchung list \<Rightarrow> bool" where
  "no_interior_overlap buchungen = pairwise_apart (localBuchungen buchungen)"

text \<open>
  What the theorems on calendar days ask of the zone.  In a regular zone the local
  days begin at midnight: local midnight of every day is an instant of the zone, and
  the instants from the local midnight of a day on are the instants of that day and
  of the later days.  In an orderly zone a local time is read as an instant of the
  same local day, also where a change of the offset skips that local time, and of two
  local times the earlier one, if the zone has it, is read as the earlier instant.  A
  zone with a constant offset is both, and so is a zone whose offset changes by an
  hour in the small hours (the lemmas on \<open>fixed_zone\<close> and on \<open>Europe_Rome_2024\<close>
  below).
\<close>

definition regular_zone :: "zone \<Rightarrow> bool" where
  "regular_zone tz =
     ((\<forall>d. LocalTime tz (UTC tz (d * msPerDay)) = d * msPerDay) \<and>
      (\<forall>d t. (UTC tz (d * msPerDay) \<le> t) = (d \<le> Day (LocalTime tz t))))"

definition orderly_zone :: "zone \<Rightarrow> bool" where
  "orderly_zone tz =
     ((\<forall>l. Day (LocalTime tz (UTC tz l)) = Day l) \<and>
      (\<forall>l m. l \<le> m \<and> LocalTime tz (UTC tz l) = l \<longrightarrow> UTC tz l \<le> UTC tz m))"

text \<open>The zone has the local time of day \<open>time\<close> on every day.\<close>

definition time_of_day_exists :: "zone \<Rightarrow> int \<Rightarrow> bool" where
  "time_of_day_exists tz time =
     (\<forall>d. LocalTime tz (UTC tz (MakeDate d time)) = MakeDate d time)"

section \<open>Example data\<close>

text \<open>
  A zone with a constant offset; central European summer time, two hours ahead of
  UTC; eastern daylight time, four hours behind UTC.
\<close>

definition fixed_zone :: "int \<Rightarrow> zone" where
  "fixed_zone c = \<lparr> utc_offset = (\<lambda>t. c), local_offset = (\<lambda>t. c) \<rparr>"

definition CEST :: zone where
  "CEST = fixed_zone 7200000"

definition EDT :: zone where
  "EDT = fixed_zone (- 14400000)"

text \<open>
  The zone Europe/Rome around the year 2024: summer time (two hours ahead of UTC)
  from 31 March 2024, 01:00 UTC, to 27 October 2024, 01:00 UTC, and standard time
  (one hour ahead) before and after.  (The zone's other changes, before 29 October
  2023 and after 30 March 2025, are left out.)  Local times from 02:00 to 03:00 of
  31 March do not exist, and local times from 02:00 to 03:00 of 27 October occur
  twice; both are read with the offset before the change, as ECMA-262 prescribes for
  a local time that a change skips or repeats: 02:30 of 31 March is read with
  standard time, which is the instant of 03:30 summer time, and 02:30 of 27 October
  is read with summer time, its first occurrence.
\<close>

definition Europe_Rome_2024 :: zone where
  "Europe_Rome_2024 =
     \<lparr> utc_offset =
         (\<lambda>t. if 1711846800000 \<le> t \<and> t < 1729990800000 then 7200000 else 3600000),
       local_offset =
         (\<lambda>l. if 1711854000000 \<le> l \<and> l < 1729998000000 then 7200000 else 3600000) \<rparr>"

text \<open>
  \<^verbatim>\<open>new Date(year, monthIndex, day, 0, 0, 0, ms)\<close>: the instant \<open>ms\<close> milliseconds after
  local midnight of a calendar day.  It is used to write down the days of the
  scenarios.
\<close>

definition new_Date_fields :: "zone \<Rightarrow> int \<Rightarrow> int \<Rightarrow> int \<Rightarrow> int \<Rightarrow> Date" where
  "new_Date_fields tz year monthIndex day ms =
     Date (UTC tz (MakeDate (MakeDay year monthIndex day) ms))"

text \<open>A live booking of a room from one date string to another, for two persons.\<close>

definition booking :: "int \<Rightarrow> int \<Rightarrow> string \<Rightarrow> string \<Rightarrow> Buchung" where
  "booking n z ci co =
     \<lparr> buchung_id = n, zimmer_id = z, gast_id = None, check_in = ci, check_out = co,
       anzahl_personen = 2, status = ''belegt'', verpflegung = None, deleted_at = None \<rparr>"

text \<open>
  A cell of the grid for a day of June 2024, \<open>ms\<close> milliseconds after local midnight,
  as \<open>formatDayCellData\<close> builds it where the locale prints the month as 06.2024.
\<close>

definition june_cell :: "zone \<Rightarrow> int \<Rightarrow> int \<Rightarrow> DayCellData" where
  "june_cell tz d ms =
     formatDayCellData tz (\<lambda>_. ''06.2024'') (new_Date_fields tz 2024 5 d ms)"

text \<open>The selection with a check-in cell, a check-out cell and a room.\<close>

definition selection :: "DayCellData \<Rightarrow> DayCellData \<Rightarrow> int \<Rightarrow> Selection" where
  "selection checkIn checkOut z =
     \<lparr> selectedCheckIn = Some checkIn, selectedCheckOut = Some checkOut,
       selectedzimmerId = Some z \<rparr>"

text \<open>Instants of July 2024, and a soft-deleted booking for the home screen.\<close>

definition july :: "zone \<Rightarrow> int \<Rightarrow> int \<Rightarrow> Date" where
  "july tz d ms = new_Date_fields tz 2024 6 d ms"

definition deleted_booking :: Buchung where
  "deleted_booking =
     (booking 3 1 ''2024-07-01'' ''2024-07-05'')
       \<lparr> verpflegung := Some Halbpension, deleted_at := Some ''2024-06-30T12:00:00Z'' \<rparr>"

text \<open>
  The month and year of a date as the locale \<^verbatim>\<open>de-DE\<close> prints them
  (\<^verbatim>\<open>03.2024\<close>), for the cells of a whole grid.
\<close>

definition de_DE :: "zone \<Rightarrow> Date \<Rightarrow> string" where
  "de_DE tz d =
     padStart2 (num_toString (num_add (getMonth tz d) 1)) @ ''.'' @
     num_toString (getFullYear tz d)"

section \<open>Calendar arithmetic\<close>

lemma MonthFromDay_range: "0 \<le> MonthFromDay d \<and> MonthFromDay d \<le> 11"
  by (simp add: MonthFromDay_def Let_def)

lemma Day_decomp:
  "DayFromYear (YearFromDay d)
   + monthStart (MonthFromDay d) (InLeapYear (YearFromDay d)) + DateFromDay d - 1 = d"
  by (simp add: DateFromDay_def DayWithinYear_def)

text \<open>Setting the day of the month to the present one plus \<open>k\<close> moves \<open>k\<close> days on.\<close>

lemma MakeDay_fields: "MakeDay (YearFromDay d) (MonthFromDay d) (DateFromDay d + k) = d + k"
proof -
  have m: "MonthFromDay d div 12 = 0" "MonthFromDay d mod 12 = MonthFromDay d"
    using MonthFromDay_range [of d] by auto
  show ?thesis
    unfolding MakeDay_def Let_def m using Day_decomp [of d] by simp
qed

text \<open>Steps and bounds of integer division, for the day number of a year.\<close>

lemma div_succ:
  fixes a b :: int
  assumes "0 < b"
  shows "(a + 1) div b = a div b + (if (a + 1) mod b = 0 then 1 else 0)"
proof -
  define q where "q = a div b"
  define r where "r = a mod b"
  have a: "a = b * q + r"
    by (simp add: q_def r_def)
  have r: "0 \<le> r" "r < b"
    using assms by (simp_all add: r_def)
  show ?thesis
  proof (cases "r + 1 = b")
    case True
    then have "a + 1 = b * (q + 1) + 0"
      using a by (simp add: algebra_simps)
    then have "(a + 1) div b = q + 1" "(a + 1) mod b = 0"
      using assms by (simp_all only: int_div_pos_eq [of _ b "q + 1" 0] int_mod_pos_eq [of _ b "q + 1" 0])
    then show ?thesis
      by (simp add: q_def)
  next
    case False
    then have r1: "0 \<le> r + 1" "r + 1 < b"
      using r by simp_all
    have "a + 1 = b * q + (r + 1)"
      using a by simp
    then have "(a + 1) div b = q" "(a + 1) mod b = r + 1"
      using r1 by (simp_all only: int_div_pos_eq [of _ b q "r + 1"] int_mod_pos_eq [of _ b q "r + 1"])
    then show ?thesis
      using r1 r by (simp add: q_def)
  qed
qed

lemma dvd_mod_0:
  fixes y :: int
  assumes "y mod a = 0" and "b dvd a"
  shows "y mod b = 0"
proof -
  from assms(1) have "a dvd y"
    by (simp add: mod_eq_0_iff_dvd)
  with assms(2) have "b dvd y"
    by (rule dvd_trans)
  then show ?thesis
    by (simp add: mod_eq_0_iff_dvd)
qed

lemma mod_shift: "(y - k * b) mod b = y mod b" for y :: int
proof -
  have "(y - k * b) mod b = (y + (- k) * b) mod b"
    by simp
  also have "\<dots> = y mod b"
    by (rule mod_mult_self1)
  finally show ?thesis .
qed

lemma step4: "(y - 1968) div 4 = (y - 1969) div 4 + (if y mod 4 = 0 then 1 else 0)" for y :: int
  using div_succ [of 4 "y - 1969"] mod_shift [of y 492 4] by simp

lemma step100: "(y - 1900) div 100 = (y - 1901) div 100 + (if y mod 100 = 0 then 1 else 0)" for y :: int
  using div_succ [of 100 "y - 1901"] mod_shift [of y 19 100] by simp

lemma step400: "(y - 1600) div 400 = (y - 1601) div 400 + (if y mod 400 = 0 then 1 else 0)" for y :: int
  using div_succ [of 400 "y - 1601"] mod_shift [of y 4 400] by simp

lemma DayFromYear_step: "DayFromYear (y + 1) = DayFromYear y + DaysInYear y"
proof -
  have "DayFromYear (y + 1) =
      365 * (y - 1970) + 365 + (y - 1968) div 4 - (y - 1900) div 100 + (y - 1600) div 400"
    by (simp add: DayFromYear_def algebra_simps)
  moreover have "y mod 100 = 0 \<Longrightarrow> y mod 4 = 0"
    by (rule dvd_mod_0 [of y 100 4]) simp_all
  moreover have "y mod 400 = 0 \<Longrightarrow> y mod 100 = 0"
    by (rule dvd_mod_0 [of y 400 100]) simp_all
  ultimately show ?thesis
    by (auto simp add: DayFromYear_def DaysInYear_def step4 step100 step400)
qed


lemma div_bounds:
  fixes a b :: int
  assumes "0 < b"
  shows "b * (a div b) \<le> a" and "a < b * (a div b) + b"
proof -
  have "b * (a div b) = a - a mod b"
    by (simp add: minus_mod_eq_mult_div)
  moreover have "0 \<le> a mod b" "a mod b < b"
    using assms by simp_all
  ultimately show "b * (a div b) \<le> a" and "a < b * (a div b) + b"
    by simp_all
qed

lemma DayFromYear_bounds:
  "146097 * (y - 1970) - 506 \<le> 400 * DayFromYear y \<and>
   400 * DayFromYear y \<le> 146097 * (y - 1970) + 589"
proof -
  define q4 where "q4 = (y - 1969) div 4"
  define q100 where "q100 = (y - 1901) div 100"
  define q400 where "q400 = (y - 1601) div 400"
  have b4: "4 * q4 \<le> y - 1969" "y - 1969 < 4 * q4 + 4"
    unfolding q4_def by (rule div_bounds; simp)+
  have b100: "100 * q100 \<le> y - 1901" "y - 1901 < 100 * q100 + 100"
    unfolding q100_def by (rule div_bounds; simp)+
  have b400: "400 * q400 \<le> y - 1601" "y - 1601 < 400 * q400 + 400"
    unfolding q400_def by (rule div_bounds; simp)+
  have "DayFromYear y = 365 * (y - 1970) + q4 - q100 + q400"
    by (simp add: DayFromYear_def q4_def q100_def q400_def)
  then show ?thesis
    using b4 b100 b400 by simp
qed

text \<open>\<open>YearFromDay\<close> is the year ECMA-262 asks for: the last one that starts by day \<open>d\<close>.\<close>

lemma YearFromDay_spec:
  "DayFromYear (YearFromDay d) \<le> d \<and> d < DayFromYear (YearFromDay d + 1)"
proof -
  define y where "y = 1970 + (400 * d) div 146097"
  have "146097 * ((400 * d) div 146097) \<le> 400 * d"
    "400 * d < 146097 * ((400 * d) div 146097) + 146097"
    by (rule div_bounds; simp)+
  then have k: "146097 * (y - 1970) \<le> 400 * d" "400 * d < 146097 * (y - 1970) + 146097"
    by (simp_all add: y_def)
  have lo: "DayFromYear (y - 1) \<le> d"
    using DayFromYear_bounds [of "y - 1"] k by simp
  have hi: "d < DayFromYear (y + 2)"
    using DayFromYear_bounds [of "y + 2"] k by simp
  have "YearFromDay d =
      (if d < DayFromYear y then y - 1 else if DayFromYear (y + 1) \<le> d then y + 1 else y)"
    by (simp add: YearFromDay_def y_def Let_def)
  then show ?thesis
    using lo hi by (simp add: algebra_simps)
qed

lemma Day_TimeWithinDay: "Day t * msPerDay + TimeWithinDay t = t"
  by (simp add: Day_def TimeWithinDay_def)

text \<open>
  Setting the day of the month to the present one plus \<open>k\<close> makes the local time
  \<open>k\<close> days on, and reads it back as an instant.
\<close>

lemma setDate_local:
  "setDate tz (Date t) (num_add (getDate tz (Date t)) k) =
     Date (UTC tz (LocalTime tz t + k * msPerDay))"
proof -
  have "MakeDate (Day (LocalTime tz t) + k) (TimeWithinDay (LocalTime tz t))
      = LocalTime tz t + k * msPerDay"
    using Day_TimeWithinDay [of "LocalTime tz t"] by (simp add: MakeDate_def algebra_simps)
  then show ?thesis
    by (simp add: YearFromTime_def MonthFromTime_def DateFromTime_def MakeDay_fields)
qed

text \<open>
  Two valid dates are the same day exactly when their local day numbers agree: year,
  month and day of the month determine the day number.
\<close>

lemma day_of_fields:
  assumes "YearFromDay d = YearFromDay d'" and "MonthFromDay d = MonthFromDay d'"
    and "DateFromDay d = DateFromDay d'"
  shows "d = d'"
proof -
  have "d = DayFromYear (YearFromDay d)
            + monthStart (MonthFromDay d) (InLeapYear (YearFromDay d)) + DateFromDay d - 1"
    by (rule Day_decomp [symmetric])
  also have "\<dots> = DayFromYear (YearFromDay d')
            + monthStart (MonthFromDay d') (InLeapYear (YearFromDay d')) + DateFromDay d' - 1"
    by (simp only: assms)
  also have "\<dots> = d'"
    by (rule Day_decomp)
  finally show ?thesis .
qed

lemma isSameDay_iff:
  "isSameDay tz (Date a) (Date b) \<longleftrightarrow> Day (LocalTime tz a) = Day (LocalTime tz b)"
proof
  assume "isSameDay tz (Date a) (Date b)"
  then have "YearFromDay (Day (LocalTime tz a)) = YearFromDay (Day (LocalTime tz b))"
    and "MonthFromDay (Day (LocalTime tz a)) = MonthFromDay (Day (LocalTime tz b))"
    and "DateFromDay (Day (LocalTime tz a)) = DateFromDay (Day (LocalTime tz b))"
    by (simp_all add: isSameDay_def YearFromTime_def MonthFromTime_def DateFromTime_def)
  then show "Day (LocalTime tz a) = Day (LocalTime tz b)"
    by (rule day_of_fields)
next
  assume "Day (LocalTime tz a) = Day (LocalTime tz b)"
  then show "isSameDay tz (Date a) (Date b)"
    by (simp add: isSameDay_def YearFromTime_def MonthFromTime_def DateFromTime_def)
qed

lemma isSameDay_invalid [simp]:
  "\<not> isSameDay tz InvalidDate d" "\<not> isSameDay tz d InvalidDate"
  by (cases d; simp add: isSameDay_def)+

lemma div_msPerDay_eq: "0 \<le> r \<Longrightarrow> r < msPerDay \<Longrightarrow> (q * msPerDay + r) div msPerDay = q"
  by (rule int_div_pos_eq [of _ _ _ r]) (simp_all add: algebra_simps)

lemma TimeWithinDay_range: "0 \<le> TimeWithinDay t \<and> TimeWithinDay t < msPerDay"
  by (simp add: TimeWithinDay_def msPerDay_def)

lemma Day_bounds: "Day t * msPerDay \<le> t \<and> t < Day t * msPerDay + msPerDay"
  using Day_TimeWithinDay [of t] TimeWithinDay_range [of t] by simp

lemma Day_eqI: "q * msPerDay \<le> t \<Longrightarrow> t < q * msPerDay + msPerDay \<Longrightarrow> Day t = q"
  using div_msPerDay_eq [of "t - q * msPerDay" q] by (simp add: Day_def)

lemma Day_le_iff: "d \<le> Day t \<longleftrightarrow> d * msPerDay \<le> t"
proof
  assume "d \<le> Day t"
  then have "d * msPerDay \<le> Day t * msPerDay"
    by (simp add: msPerDay_def)
  with Day_bounds [of t] show "d * msPerDay \<le> t"
    by linarith
next
  assume "d * msPerDay \<le> t"
  with Day_bounds [of t] have "d * msPerDay < (Day t + 1) * msPerDay"
    by (simp add: algebra_simps)
  then have "d < Day t + 1"
    by (simp add: msPerDay_def)
  then show "d \<le> Day t"
    by simp
qed

lemma Day_MakeDate: "0 \<le> time \<Longrightarrow> time < msPerDay \<Longrightarrow> Day (MakeDate d time) = d"
  by (simp add: MakeDate_def Day_def div_msPerDay_eq)

section \<open>Time zones\<close>

text \<open>
  The zones of the examples are regular and orderly: a zone with a constant offset, and
  the zone Europe/Rome, whose offset changes by an hour at 01:00 UTC.
\<close>

lemma LocalTime_fixed [simp]: "LocalTime (fixed_zone c) t = t + c"
  by (simp add: LocalTime_def fixed_zone_def)

lemma UTC_fixed [simp]: "UTC (fixed_zone c) t = t - c"
  by (simp add: UTC_def fixed_zone_def)

lemma regular_fixed_zone: "regular_zone (fixed_zone c)"
  unfolding regular_zone_def
proof (intro conjI allI)
  fix d t
  show "(UTC (fixed_zone c) (d * msPerDay) \<le> t) = (d \<le> Day (LocalTime (fixed_zone c) t))"
    by (simp add: Day_le_iff) arith
qed simp

lemma orderly_fixed_zone: "orderly_zone (fixed_zone c)"
  by (simp add: orderly_zone_def)

lemma time_of_day_exists_fixed: "time_of_day_exists (fixed_zone c) time"
  by (simp add: time_of_day_exists_def)

lemma LocalTime_Rome:
  "LocalTime Europe_Rome_2024 t =
     (if 1711846800000 \<le> t \<and> t < 1729990800000 then t + 7200000 else t + 3600000)"
  by (simp add: LocalTime_def Europe_Rome_2024_def)

lemma UTC_Rome:
  "UTC Europe_Rome_2024 l =
     (if 1711854000000 \<le> l \<and> l < 1729998000000 then l - 7200000 else l - 3600000)"
  by (simp add: UTC_def Europe_Rome_2024_def)

text \<open>
  A local time is read back as itself, except in the hour that the zone skips on
  31 March 2024 (02:00 to 03:00), which is read as the hour after it.
\<close>

lemma Rome_roundtrip:
  "LocalTime Europe_Rome_2024 (UTC Europe_Rome_2024 l) =
     (if 1711850400000 \<le> l \<and> l < 1711854000000 then l + 3600000 else l)"
  by (auto simp add: LocalTime_Rome UTC_Rome)

text \<open>A time of day outside the hour from 02:00 to 03:00 is never in the skipped hour.\<close>

lemma time_not_skipped:
  assumes "0 \<le> time" and "time < 7200000 \<or> 10800000 \<le> time" and "time < msPerDay"
  shows "\<not> (1711850400000 \<le> d * msPerDay + time \<and> d * msPerDay + time < 1711854000000)"
proof -
  have "d \<le> 19812 \<or> d = 19813 \<or> 19814 \<le> d"
    by arith
  then show ?thesis
    using assms by (elim disjE) (simp_all add: msPerDay_def)
qed

lemma time_of_day_exists_Rome:
  assumes "0 \<le> time" and "time < 7200000 \<or> 10800000 \<le> time" and "time < msPerDay"
  shows "time_of_day_exists Europe_Rome_2024 time"
  unfolding time_of_day_exists_def MakeDate_def Rome_roundtrip
  using time_not_skipped [OF assms] by simp

lemma Rome_midnight_cut:
  "(UTC Europe_Rome_2024 (d * msPerDay) \<le> t) = (d \<le> Day (LocalTime Europe_Rome_2024 t))"
proof -
  have "d \<le> 19813 \<or> (19814 \<le> d \<and> d \<le> 20023) \<or> 20024 \<le> d"
    by arith
  then show ?thesis
    by (elim disjE) (auto simp add: Day_le_iff UTC_Rome LocalTime_Rome msPerDay_def)
qed

lemma Rome_same_day: "Day (LocalTime Europe_Rome_2024 (UTC Europe_Rome_2024 l)) = Day l"
proof (cases "1711850400000 \<le> l \<and> l < 1711854000000")
  case True
  then have "Day (l + 3600000) = 19813" "Day l = 19813"
    by (auto intro!: Day_eqI simp add: msPerDay_def)
  with True show ?thesis
    by (simp add: Rome_roundtrip)
next
  case False
  then show ?thesis
    by (auto simp add: Rome_roundtrip)
qed

text \<open>
  \<^verbatim>\<open>setDate\<close> across the end of summer time: from 27 October 2024, 10:00 (winter
  time), the day before is 26 October, 10:00 (summer time), 25 hours earlier.
\<close>

lemma setDate_Rome_autumn:
  "setDate Europe_Rome_2024 (Date 1730019600000)
     (num_add (getDate Europe_Rome_2024 (Date 1730019600000)) (- 1)) = Date 1729929600000"
  by (subst setDate_local) (simp add: LocalTime_Rome UTC_Rome msPerDay_def)

lemma regular_Europe_Rome_2024: "regular_zone Europe_Rome_2024"
  unfolding regular_zone_def
proof (intro conjI allI)
  fix d
  show "LocalTime Europe_Rome_2024 (UTC Europe_Rome_2024 (d * msPerDay)) = d * msPerDay"
    using time_not_skipped [of 0 d] by (simp add: Rome_roundtrip msPerDay_def)
next
  fix d t
  show "(UTC Europe_Rome_2024 (d * msPerDay) \<le> t) = (d \<le> Day (LocalTime Europe_Rome_2024 t))"
    by (rule Rome_midnight_cut)
qed

lemma orderly_Europe_Rome_2024: "orderly_zone Europe_Rome_2024"
  unfolding orderly_zone_def
proof (intro conjI allI impI)
  fix l
  show "Day (LocalTime Europe_Rome_2024 (UTC Europe_Rome_2024 l)) = Day l"
    by (rule Rome_same_day)
next
  fix l m :: int
  assume a: "l \<le> m \<and> LocalTime Europe_Rome_2024 (UTC Europe_Rome_2024 l) = l"
  then have "\<not> (1711850400000 \<le> l \<and> l < 1711854000000)"
    by (auto simp add: Rome_roundtrip split: if_splits)
  with a show "UTC Europe_Rome_2024 l \<le> UTC Europe_Rome_2024 m"
    by (auto simp add: UTC_Rome)
qed

section \<open>Date strings of the scenarios\<close>

lemmas calendar_defs =
  MakeDay_def MakeDate_def DayFromYear_def monthStart_def InLeapYear_def DaysInYear_def Let_def

lemma parse_midnight: "parse_time_part ''00:00:00'' = Some 0"
  by (simp add: parse_time_part_def parse_digits_def digit_of_def)

text \<open>
  \<open>parseDate\<close> reads a string without \<^verbatim>\<open>T\<close> as local midnight of the day that the
  string writes, and as an invalid date when the string is not a date.
\<close>

lemma parseDate_date_string:
  assumes "CHR ''T'' \<notin> set s"
  shows "parseDate tz s =
    (case parse_date_part s of
       Some day \<Rightarrow> Date (UTC tz (day * msPerDay))
     | None \<Rightarrow> InvalidDate)"
proof -
  have t: "takeWhile (\<lambda>c. c \<noteq> CHR ''T'') (s @ ''T00:00:00'') = s"
    using assms by (subst takeWhile_append2) auto
  have d: "dropWhile (\<lambda>c. c \<noteq> CHR ''T'') (s @ ''T00:00:00'') = ''T00:00:00''"
    using assms by (subst dropWhile_append2) auto
  show ?thesis
    using assms
    by (simp add: parseDate_def new_Date_def t d parse_midnight MakeDate_def Let_def
        split: option.splits)
qed

lemma date_part_0601: "parse_date_part ''2024-06-01'' = Some 19875"
  by (simp add: parse_date_part_def parse_digits_def digit_of_def calendar_defs)

lemma date_part_0605: "parse_date_part ''2024-06-05'' = Some 19879"
  by (simp add: parse_date_part_def parse_digits_def digit_of_def calendar_defs)

lemma date_part_0610: "parse_date_part ''2024-06-10'' = Some 19884"
  by (simp add: parse_date_part_def parse_digits_def digit_of_def calendar_defs)

lemma date_part_0615: "parse_date_part ''2024-06-15'' = Some 19889"
  by (simp add: parse_date_part_def parse_digits_def digit_of_def calendar_defs)

lemma date_part_0620: "parse_date_part ''2024-06-20'' = Some 19894"
  by (simp add: parse_date_part_def parse_digits_def digit_of_def calendar_defs)

lemma date_part_0701: "parse_date_part ''2024-07-01'' = Some 19905"
  by (simp add: parse_date_part_def parse_digits_def digit_of_def calendar_defs)

lemma date_part_0705: "parse_date_part ''2024-07-05'' = Some 19909"
  by (simp add: parse_date_part_def parse_digits_def digit_of_def calendar_defs)

lemma parseDate_0601: "parseDate tz ''2024-06-01'' = Date (UTC tz (19875 * msPerDay))"
  by (simp add: parseDate_date_string date_part_0601)

lemma parseDate_0605: "parseDate tz ''2024-06-05'' = Date (UTC tz (19879 * msPerDay))"
  by (simp add: parseDate_date_string date_part_0605)

lemma parseDate_0610: "parseDate tz ''2024-06-10'' = Date (UTC tz (19884 * msPerDay))"
  by (simp add: parseDate_date_string date_part_0610)

lemma parseDate_0615: "parseDate tz ''2024-06-15'' = Date (UTC tz (19889 * msPerDay))"
  by (simp add: parseDate_date_string date_part_0615)

lemma parseDate_0620: "parseDate tz ''2024-06-20'' = Date (UTC tz (19894 * msPerDay))"
  by (simp add: parseDate_date_string date_part_0620)

lemma parseDate_0701: "parseDate tz ''2024-07-01'' = Date (UTC tz (19905 * msPerDay))"
  by (simp add: parseDate_date_string date_part_0701)

lemma new_Date_0701: "new_Date tz ''2024-07-01'' = Date (19905 * msPerDay)"
  by (simp add: new_Date_def date_part_0701 MakeDate_def)

lemma new_Date_0705: "new_Date tz ''2024-07-05'' = Date (19909 * msPerDay)"
  by (simp add: new_Date_def date_part_0705 MakeDate_def)

lemma new_Date_fields_june:
  "new_Date_fields tz 2024 5 d ms = Date (UTC tz ((19874 + d) * msPerDay + ms))"
  by (simp add: new_Date_fields_def calendar_defs algebra_simps)

lemma july_time: "july tz d ms = Date (UTC tz ((19904 + d) * msPerDay + ms))"
  by (simp add: july_def new_Date_fields_def calendar_defs algebra_simps)

lemma date_june_cell: "date (june_cell tz d ms) = Date (UTC tz ((19874 + d) * msPerDay + ms))"
  by (simp add: june_cell_def formatDayCellData_def new_Date_fields_june)

section \<open>Availability of an interval\<close>

lemma booking_loop_room:
  "booking_loop tz z s e (filter (\<lambda>b. zimmer_id b = z) bookings)
   = booking_loop tz z s e bookings"
  by (induction bookings) (simp_all add: Let_def)

lemma booking_loop_conflict:
  "booking_loop tz z s e bookings \<longleftrightarrow>
   \<not> (\<exists>b \<in> set bookings. zimmer_id b = z \<and>
          date_lt s (parseDate tz (check_out b)) \<and>
          date_gt e (parseDate tz (check_in b)) \<and>
          \<not> (num_eq (getTime e) (getTime (parseDate tz (check_in b))) \<or>
             num_eq (getTime s) (getTime (parseDate tz (check_out b)))))"
  by (induction bookings) (auto simp add: Let_def)

lemma booking_loop_invalid_start: "booking_loop tz z InvalidDate e bookings"
  by (induction bookings) (simp_all add: Let_def)

text \<open>
  The two equalities that the loop tolerates cannot hold once the overlap test has
  succeeded, so a booking blocks the interval exactly when the overlap test succeeds.
\<close>

lemma tolerance_never_fires:
  "date_lt s bookingEnd \<Longrightarrow> date_gt e bookingStart \<Longrightarrow>
   \<not> (num_eq (getTime e) (getTime bookingStart) \<or> num_eq (getTime s) (getTime bookingEnd))"
  by (cases s; cases e; cases bookingStart; cases bookingEnd) (auto simp: date_gt_def)

lemma booking_loop_overlap:
  "booking_loop tz z s e bookings \<longleftrightarrow>
   \<not> (\<exists>b \<in> set bookings. zimmer_id b = z \<and>
          date_lt s (parseDate tz (check_out b)) \<and>
          date_gt e (parseDate tz (check_in b)))"
  unfolding booking_loop_conflict using tolerance_never_fires by blast

text \<open>
  Claim C1 at a failing input.  Room 1 is booked from 15 June to 20 June 2024.  The
  candidate runs from the cell of 12 June to the cell of 15 June, two cells of a grid
  that was generated at 10:00, as \<open>handleDayPress\<close> passes them: it ends on the day
  on which the booking begins, so it abuts the booking at that single shared day, and
  \<open>isIntervalAvailableForzimmer\<close> rejects it.  The function does write the
  tolerance for this case, but as an equality of instants under the overlap test,
  where it can never hold (lemma \<open>tolerance_never_fires\<close>); the instant of a cell
  later than midnight on the check-in day is after the check-in instant.
\<close>

theorem isIntervalAvailableForzimmer_end_on_check_in:
  "date_lt (date (june_cell CEST 12 36000000)) (date (june_cell CEST 15 36000000)) \<and>
   isSameDay CEST (date (june_cell CEST 15 36000000))
     (parseDate CEST (check_in (booking 7 1 ''2024-06-15'' ''2024-06-20''))) \<and>
   \<not> isIntervalAvailableForzimmer CEST (Some 1)
       (date (june_cell CEST 12 36000000)) (date (june_cell CEST 15 36000000))
       [booking 7 1 ''2024-06-15'' ''2024-06-20'']"
  by (simp add: isIntervalAvailableForzimmer_def booking_def date_june_cell parseDate_0615
      parseDate_0620 date_gt_def isSameDay_iff Day_def CEST_def msPerDay_def)

text \<open>
  Claim C2, as amended.  For every date \<open>d\<close> (valid or not) and every list of
  bookings, the single-day probe \<open>isIntervalAvailableForzimmer room d d bookings\<close> is
  true for every room id other than 0, and it is false for the room id 0, which the
  guard \<^verbatim>\<open>!zimmerId\<close> takes for a missing room id like \<^verbatim>\<open>null\<close>.
\<close>

theorem single_day_probe_available:
  "isIntervalAvailableForzimmer tz zimmerId d d bookings =
     (zimmerId \<noteq> None \<and> zimmerId \<noteq> Some 0)"
  by (cases zimmerId; cases d)
    (simp_all add: isIntervalAvailableForzimmer_def booking_loop_invalid_start)

text \<open>
  The claim as stated (any room id) fails for the room id 0: the probe of 12 June in
  room 0 is false.
\<close>

theorem single_day_probe_room_0:
  "\<not> isIntervalAvailableForzimmer CEST (Some 0)
       (new_Date_fields CEST 2024 5 12 0) (new_Date_fields CEST 2024 5 12 0)
       [booking 1 1 ''2024-06-10'' ''2024-06-15'']"
  by (simp add: isIntervalAvailableForzimmer_def)

text \<open>
  Claim C10.  For every room id, start, end and list of bookings, the result of
  \<open>isIntervalAvailableForzimmer\<close> is its result on the sublist of the bookings of that
  room: the bookings of other rooms have no part in it.
\<close>

theorem isIntervalAvailableForzimmer_room_only:
  "isIntervalAvailableForzimmer tz zimmerId s e bookings
   = isIntervalAvailableForzimmer tz zimmerId s e
       (filter (\<lambda>b. Some (zimmer_id b) = zimmerId) bookings)"
  by (cases zimmerId) (simp_all add: isIntervalAvailableForzimmer_def booking_loop_room)

section \<open>The selection machine\<close>

lemma isSameDay_refl: "isSameDay tz (Date t) (Date t)"
  by (simp add: isSameDay_iff)

lemma probe_available:
  "z \<noteq> 0 \<Longrightarrow> isIntervalAvailableForzimmer tz (Some z) d d bookings"
  by (cases d) (simp_all add: isIntervalAvailableForzimmer_def booking_loop_invalid_start)

lemma handleDayPress_first:
  assumes "isIntervalAvailableForzimmer tz (Some z) (date day) (date day) bs"
  shows "handleDayPress tz bs Empty_Selection day z = (selection day day z, None)"
  using assms by (simp add: handleDayPress_def Empty_Selection_def selection_def)

text \<open>
  A tap on the check-in cell itself, or on another cell of the same calendar day,
  only sets the check-out to the tapped cell.  (A cell with an invalid date is not
  the same day as itself; the tap then falls through to the last branch, which sets
  both ends to the tapped cell, and the state is the same.)
\<close>

lemma handleDayPress_same_day:
  assumes "selectedCheckIn st = Some day" and "selectedzimmerId st = Some z"
    and "d = day \<or> isSameDay tz (date d) (date day)"
  shows "handleDayPress tz bs st d z = (st\<lparr> selectedCheckOut := Some d \<rparr>, None)"
proof (cases "isSameDay tz (date d) (date day)")
  case True
  with assms show ?thesis
    by (simp add: handleDayPress_def)
next
  case False
  with assms(3) have d: "d = day"
    by simp
  with False have "date day = InvalidDate"
    by (cases "date day") (simp_all add: isSameDay_refl)
  with assms d show ?thesis
    by (simp add: handleDayPress_def date_ge_def)
qed

lemma taps_same_day:
  assumes "selectedCheckIn st = Some day" and "selectedzimmerId st = Some z"
    and "\<forall>d \<in> set ds. d = day \<or> isSameDay tz (date d) (date day)"
  shows "taps tz bs z st ds =
    (if ds = [] then st else st\<lparr> selectedCheckOut := Some (last ds) \<rparr>)"
  using assms
proof (induction ds arbitrary: st)
  case Nil
  then show ?case by simp
next
  case (Cons d ds)
  then have step: "handleDayPress tz bs st d z = (st\<lparr> selectedCheckOut := Some d \<rparr>, None)"
    by (simp add: handleDayPress_same_day)
  have "taps tz bs z (st\<lparr> selectedCheckOut := Some d \<rparr>) ds =
      (if ds = [] then st\<lparr> selectedCheckOut := Some d \<rparr>
       else st\<lparr> selectedCheckOut := Some d \<rparr>\<lparr> selectedCheckOut := Some (last ds) \<rparr>)"
    using Cons.prems by (intro Cons.IH) simp_all
  with step show ?case
    by simp
qed

lemma taps_from_Empty:
  assumes "isIntervalAvailableForzimmer tz (Some z) (date day) (date day) bs"
    and "\<forall>d \<in> set ds. d = day \<or> isSameDay tz (date d) (date day)"
  shows "taps tz bs z Empty_Selection (day # ds) = selection day (last (day # ds)) z"
proof -
  have first: "fst (handleDayPress tz bs Empty_Selection day z) = selection day day z"
    using assms(1) by (simp add: handleDayPress_first)
  have "taps tz bs z (selection day day z) ds =
      (if ds = [] then selection day day z
       else (selection day day z)\<lparr> selectedCheckOut := Some (last ds) \<rparr>)"
    using assms(2) by (intro taps_same_day) (simp_all add: selection_def)
  with first show ?thesis
    by (simp add: selection_def)
qed

text \<open>
  Claim C4.  From the empty selection, a tap on a day that is available (the test
  that \<open>handleDayPress\<close> makes) selects that day as check-in and as check-out, and
  every further tap in the same room on that day (on the same cell, or on another
  cell of the same calendar day) leaves the check-in on that day and puts the
  check-out on the tapped cell, which is a cell of that same day: the selection
  stays one with check-in and check-out on the same day, however many taps follow.
\<close>

theorem taps_on_check_in_day:
  assumes "isIntervalAvailableForzimmer tz (Some z) (date day) (date day) bs"
    and "\<forall>d \<in> set ds. d = day \<or> isSameDay tz (date d) (date day)"
  shows "taps tz bs z Empty_Selection (day # ds) = selection day (last (day # ds)) z \<and>
     (last (day # ds) = day \<or> isSameDay tz (date (last (day # ds))) (date day)) \<and>
     taps tz bs z Empty_Selection (day # replicate n day) = selection day day z"
proof (intro conjI)
  show "taps tz bs z Empty_Selection (day # ds) = selection day (last (day # ds)) z"
    using assms by (rule taps_from_Empty)
  show "last (day # ds) = day \<or> isSameDay tz (date (last (day # ds))) (date day)"
    using assms(2) by (cases "ds = []") auto
  have "\<forall>d \<in> set (replicate n day). d = day \<or> isSameDay tz (date d) (date day)"
    by simp
  with assms(1) have "taps tz bs z Empty_Selection (day # replicate n day) =
      selection day (last (day # replicate n day)) z"
    by (rule taps_from_Empty)
  then show "taps tz bs z Empty_Selection (day # replicate n day) = selection day day z"
    by (cases n) simp_all
qed

theorem taps_on_check_in_day_witness:
  "isIntervalAvailableForzimmer CEST (Some 1) (date (june_cell CEST 12 36000000))
      (date (june_cell CEST 12 36000000)) [booking 1 1 ''2024-06-10'' ''2024-06-15''] \<and>
   taps CEST [booking 1 1 ''2024-06-10'' ''2024-06-15''] 1 Empty_Selection
     (june_cell CEST 12 36000000 # replicate 2 (june_cell CEST 12 36000000)) =
     selection (june_cell CEST 12 36000000) (june_cell CEST 12 36000000) 1"
proof -
  have a: "isIntervalAvailableForzimmer CEST (Some 1) (date (june_cell CEST 12 36000000))
      (date (june_cell CEST 12 36000000)) [booking 1 1 ''2024-06-10'' ''2024-06-15'']"
    by (rule probe_available) simp
  have b: "\<forall>d \<in> set []. d = june_cell CEST 12 36000000 \<or>
      isSameDay CEST (date d) (date (june_cell CEST 12 36000000))"
    by simp
  from a taps_on_check_in_day [OF a b, of 2, THEN conjunct2, THEN conjunct2]
  show ?thesis
    by (rule conjI)
qed

text \<open>
  Claim C3, as amended.  A check-in is selected and a day of the same room is
  tapped.  If the tapped day is the calendar day of the check-in, the tap is accepted
  as the new check-out without any test.  If it is another day, on or after the
  check-in, the tap is accepted as the new check-out exactly when the interval from
  the check-in to the tapped day is available or the booking that
  \<open>getBuchungForDay\<close> finds on the tapped day has its check-in on the tapped day;
  otherwise the alert is raised and the selection is left as it was.
\<close>

theorem handleDayPress_check_out:
  assumes "selectedCheckIn st = Some checkIn" and "selectedzimmerId st = Some z"
  shows
    "(isSameDay tz (date day) (date checkIn) \<longrightarrow>
        handleDayPress tz bs st day z = (st\<lparr> selectedCheckOut := Some day \<rparr>, None)) \<and>
     (\<not> isSameDay tz (date day) (date checkIn) \<and> date_ge (date day) (date checkIn) \<longrightarrow>
        handleDayPress tz bs st day z =
          (if isIntervalAvailableForzimmer tz (Some z) (date checkIn) (date day) bs \<or>
              (\<exists>b. getBuchungForDay tz day z bs = Some b \<and>
                   isSameDay tz (date day) (parseDate tz (check_in b)))
           then (st\<lparr> selectedCheckOut := Some day \<rparr>, None)
           else (st, Some Intervall_nicht_verfuegbar)))"
  using assms by (auto simp add: handleDayPress_def Let_def split: option.splits)

text \<open>
  The witness: the check-in is 12 June, the tapped day is 15 June, on which another
  booking of the room begins.  The interval is not available, the tap is accepted.
\<close>

theorem handleDayPress_check_out_witness:
  "selectedCheckIn (selection (june_cell CEST 12 36000000) (june_cell CEST 12 36000000) 1)
     = Some (june_cell CEST 12 36000000) \<and>
   selectedzimmerId (selection (june_cell CEST 12 36000000) (june_cell CEST 12 36000000) 1)
     = Some 1 \<and>
   \<not> isSameDay CEST (date (june_cell CEST 15 36000000)) (date (june_cell CEST 12 36000000)) \<and>
   date_ge (date (june_cell CEST 15 36000000)) (date (june_cell CEST 12 36000000)) \<and>
   \<not> isIntervalAvailableForzimmer CEST (Some 1) (date (june_cell CEST 12 36000000))
       (date (june_cell CEST 15 36000000)) [booking 7 1 ''2024-06-15'' ''2024-06-20''] \<and>
   handleDayPress CEST [booking 7 1 ''2024-06-15'' ''2024-06-20'']
     (selection (june_cell CEST 12 36000000) (june_cell CEST 12 36000000) 1)
     (june_cell CEST 15 36000000) 1
   = (selection (june_cell CEST 12 36000000) (june_cell CEST 15 36000000) 1, None)"
proof -
  let ?ci = "june_cell CEST 12 36000000"
  let ?day = "june_cell CEST 15 36000000"
  let ?bs = "[booking 7 1 ''2024-06-15'' ''2024-06-20'']"
  have h1: "selectedCheckIn (selection ?ci ?ci 1) = Some ?ci"
    and h2: "selectedzimmerId (selection ?ci ?ci 1) = Some 1"
    by (simp_all add: selection_def)
  have h3: "\<not> isSameDay CEST (date ?day) (date ?ci) \<and> date_ge (date ?day) (date ?ci)"
    by (simp add: CEST_def date_june_cell isSameDay_iff Day_def date_ge_def msPerDay_def)
  have n: "\<not> isIntervalAvailableForzimmer CEST (Some 1) (date ?ci) (date ?day) ?bs"
    by (simp add: isIntervalAvailableForzimmer_def booking_def CEST_def date_june_cell parseDate_0615
        parseDate_0620 date_gt_def msPerDay_def)
  have c: "\<exists>b. getBuchungForDay CEST ?day 1 ?bs = Some b \<and>
      isSameDay CEST (date ?day) (parseDate CEST (check_in b))"
    by (simp add: getBuchungForDay_def booking_def CEST_def date_june_cell parseDate_0615
        parseDate_0620 date_ge_def isSameDay_iff Day_def msPerDay_def)
  have "handleDayPress CEST ?bs (selection ?ci ?ci 1) ?day 1 =
      (if isIntervalAvailableForzimmer CEST (Some 1) (date ?ci) (date ?day) ?bs \<or>
          (\<exists>b. getBuchungForDay CEST ?day 1 ?bs = Some b \<and>
               isSameDay CEST (date ?day) (parseDate CEST (check_in b)))
       then ((selection ?ci ?ci 1)\<lparr> selectedCheckOut := Some ?day \<rparr>, None)
       else (selection ?ci ?ci 1, Some Intervall_nicht_verfuegbar))"
    by (rule handleDayPress_check_out [OF h1 h2, THEN conjunct2, rule_format, OF h3])
  with c have "handleDayPress CEST ?bs (selection ?ci ?ci 1) ?day 1 =
      ((selection ?ci ?ci 1)\<lparr> selectedCheckOut := Some ?day \<rparr>, None)"
    by (simp only: if_True simp_thms)
  then have "handleDayPress CEST ?bs (selection ?ci ?ci 1) ?day 1 = (selection ?ci ?day 1, None)"
    by (simp add: selection_def)
  with h1 h2 h3 n show ?thesis
    by blast
qed

text \<open>
  The claim as stated fails when the tapped cell is on the check-in's calendar day
  but is not the check-in cell itself (the grid was built anew in between, at 11:00
  instead of 10:00).  Room 1 is booked from 1 June to 5 June and the check-in is on
  3 June: the interval between the two cells is not available and the booking on
  the tapped day did not start on it, yet the tap is accepted as the check-out.
\<close>

theorem handleDayPress_same_day_accepted:
  "date_ge (date (june_cell CEST 3 39600000)) (date (june_cell CEST 3 36000000)) \<and>
   handleDayPress CEST [booking 7 1 ''2024-06-01'' ''2024-06-05'']
     (selection (june_cell CEST 3 36000000) (june_cell CEST 3 36000000) 1)
     (june_cell CEST 3 39600000) 1
   = (selection (june_cell CEST 3 36000000) (june_cell CEST 3 39600000) 1, None) \<and>
   \<not> isIntervalAvailableForzimmer CEST (Some 1) (date (june_cell CEST 3 36000000))
       (date (june_cell CEST 3 39600000)) [booking 7 1 ''2024-06-01'' ''2024-06-05''] \<and>
   getBuchungForDay CEST (june_cell CEST 3 39600000) 1 [booking 7 1 ''2024-06-01'' ''2024-06-05'']
     = Some (booking 7 1 ''2024-06-01'' ''2024-06-05'') \<and>
   \<not> isSameDay CEST (date (june_cell CEST 3 39600000))
       (parseDate CEST (check_in (booking 7 1 ''2024-06-01'' ''2024-06-05'')))"
  by (simp add: handleDayPress_def selection_def isIntervalAvailableForzimmer_def
      getBuchungForDay_def booking_def CEST_def date_june_cell parseDate_0601 parseDate_0605
      date_ge_def date_gt_def isSameDay_iff Day_def msPerDay_def)

section \<open>The booking of a day\<close>

lemma apart_sym: "apart b c = apart c b"
  by (auto simp add: apart_def split: option.splits)

lemma pairwise_apart_pair:
  assumes "pairwise_apart xs" and "b \<in> set xs" and "c \<in> set xs" and "b \<noteq> c"
    and "zimmer_id b = zimmer_id c"
  shows "apart b c"
  using assms
proof (induction xs)
  case Nil
  then show ?case by simp
next
  case (Cons x xs)
  show ?case
  proof (cases "b = x")
    case True
    with Cons.prems have "c \<in> set xs"
      by auto
    with Cons.prems True show ?thesis
      by (auto simp add: list_all_iff)
  next
    case False
    show ?thesis
    proof (cases "c = x")
      case True
      with Cons.prems False have "b \<in> set xs"
        by auto
      with Cons.prems True have "apart c b"
        by (auto simp add: list_all_iff)
      then show ?thesis
        by (simp add: apart_sym)
    next
      case c: False
      with False Cons show ?thesis
        by auto
    qed
  qed
qed

lemma getBuchungForDay_find:
  "getBuchungForDay tz day z bs = find (covers tz day z) bs"
proof -
  have "(\<lambda>b. if zimmer_id b \<noteq> z then False
             else (let s = parseDate tz (check_in b); e = parseDate tz (check_out b) in
                   date_ge (date day) s \<and> date_le (date day) e)) = covers tz day z"
    by (auto simp add: fun_eq_iff covers_def Let_def)
  then show ?thesis
    by (simp add: getBuchungForDay_def)
qed

text \<open>
  The test of \<open>getBuchungForDay\<close> in calendar days.  In a regular zone, for a booking
  whose dates are date strings, the cell's instant is between the check-in and the
  check-out instants exactly when the cell's local day is from the check-in day up to
  the day before the check-out day, or the cell is the very instant of local midnight
  of the check-out day.
\<close>

lemma covers_days:
  assumes "regular_zone tz" and "date_strings b" and "date day = Date t"
  shows "covers tz day z b \<longleftrightarrow>
    zimmer_id b = z \<and>
    (case (check_in_day b, check_out_day b) of
       (Some ci, Some co) \<Rightarrow>
         ci \<le> Day (LocalTime tz t) \<and>
         (Day (LocalTime tz t) < co \<or> t = UTC tz (co * msPerDay))
     | _ \<Rightarrow> False)"
proof -
  from assms(1) have cut: "(UTC tz (d * msPerDay) \<le> t) = (d \<le> Day (LocalTime tz t))" for d
    by (simp add: regular_zone_def)
  have le: "(t \<le> UTC tz (d * msPerDay)) =
      (Day (LocalTime tz t) < d \<or> t = UTC tz (d * msPerDay))" for d
    using cut [of d] by auto
  from assms(2) have "CHR ''T'' \<notin> set (check_in b)" "CHR ''T'' \<notin> set (check_out b)"
    by (simp_all add: date_strings_def)
  then show ?thesis
    by (simp add: covers_def parseDate_date_string assms(3) check_in_day_def check_out_day_def
        date_ge_def cut le split: option.splits)
qed

lemma covers_occupies:
  assumes "regular_zone tz" and "date_strings b" and "date day = Date t"
    and "t \<noteq> UTC tz (Day (LocalTime tz t) * msPerDay)"
  shows "covers tz day z b \<longleftrightarrow> zimmer_id b = z \<and> occupies b (Day (LocalTime tz t))"
proof -
  have "t \<noteq> UTC tz (d * msPerDay)" for d
  proof
    assume t: "t = UTC tz (d * msPerDay)"
    with assms(1) have "LocalTime tz t = d * msPerDay"
      by (simp add: regular_zone_def)
    then have "Day (LocalTime tz t) = d"
      by (simp add: Day_def msPerDay_def)
    with t assms(4) show False
      by simp
  qed
  then show ?thesis
    by (simp add: covers_days [OF assms(1-3)] occupies_def split: option.splits)
qed

lemma covers_at_midnight:
  assumes "regular_zone tz" and "date_strings b" and "date day = Date t"
    and "t = UTC tz (Day (LocalTime tz t) * msPerDay)"
  shows "covers tz day z b \<longleftrightarrow> zimmer_id b = z \<and> in_inclusive_range b (Day (LocalTime tz t))"
proof -
  have eq: "(t = UTC tz (d * msPerDay)) = (Day (LocalTime tz t) = d)" for d
  proof
    assume t: "t = UTC tz (d * msPerDay)"
    with assms(1) have "LocalTime tz t = d * msPerDay"
      by (simp add: regular_zone_def)
    then show "Day (LocalTime tz t) = d"
      by (simp add: Day_def msPerDay_def)
  next
    assume "Day (LocalTime tz t) = d"
    with assms(4) show "t = UTC tz (d * msPerDay)"
      by simp
  qed
  show ?thesis
    unfolding covers_days [OF assms(1-3)] in_inclusive_range_def eq
    by (auto split: option.splits)
qed

text \<open>A cell later than local midnight is not the first instant of its day.\<close>

lemma after_midnight:
  assumes "regular_zone tz" and "0 < TimeWithinDay (LocalTime tz t)"
  shows "t \<noteq> UTC tz (Day (LocalTime tz t) * msPerDay)"
proof
  assume "t = UTC tz (Day (LocalTime tz t) * msPerDay)"
  with assms(1) have "LocalTime tz t = Day (LocalTime tz t) * msPerDay"
    unfolding regular_zone_def by metis
  with assms(2) Day_TimeWithinDay [of "LocalTime tz t"] show False
    by simp
qed

lemma occupies_twice: "occupies b d \<Longrightarrow> occupies c d \<Longrightarrow> \<not> apart b c"
  by (auto simp add: occupies_def apart_def split: option.splits)

text \<open>
  Claim C6, as amended.  The zone is regular, and the bookings that are not deleted
  have date strings as their dates and satisfy the invariant of the data model.  For a
  cell whose instant is later than local midnight of its day (the cells of the grid
  carry the time of day at which the grid was generated), \<open>getBuchungForDay\<close> returns
  none exactly when no booking of the room that is not deleted has the cell's calendar
  day in its half-open range of days, from the check-in day up to the day before the
  check-out day; it returns a booking exactly when that booking is such a one; and
  there is at most one such booking: the check-out day itself is not covered.  For a
  cell at the very instant of local midnight, \<open>getBuchungForDay\<close> returns the first
  booking of the room, in the order of the list, whose inclusive range of days, from
  the check-in day to the check-out day, contains the cell's calendar day.
\<close>

theorem getBuchungForDay_half_open:
  assumes "regular_zone tz"
    and "\<forall>b \<in> set (localBuchungen bs). date_strings b"
    and "date day = Date t"
    and "no_interior_overlap bs"
  shows
    "(t \<noteq> UTC tz (Day (LocalTime tz t) * msPerDay) \<longrightarrow>
        (getBuchungForDay tz day z (localBuchungen bs) = None \<longleftrightarrow>
           \<not> (\<exists>b \<in> set (localBuchungen bs).
                 zimmer_id b = z \<and> occupies b (Day (LocalTime tz t)))) \<and>
        (\<forall>b. getBuchungForDay tz day z (localBuchungen bs) = Some b \<longleftrightarrow>
           b \<in> set (localBuchungen bs) \<and> zimmer_id b = z \<and>
           occupies b (Day (LocalTime tz t))) \<and>
        (\<forall>b c. b \<in> set (localBuchungen bs) \<and> c \<in> set (localBuchungen bs) \<and>
           zimmer_id b = z \<and> occupies b (Day (LocalTime tz t)) \<and>
           zimmer_id c = z \<and> occupies c (Day (LocalTime tz t)) \<longrightarrow> b = c)) \<and>
     (t = UTC tz (Day (LocalTime tz t) * msPerDay) \<longrightarrow>
        getBuchungForDay tz day z (localBuchungen bs) =
          find (\<lambda>b. zimmer_id b = z \<and> in_inclusive_range b (Day (LocalTime tz t)))
            (localBuchungen bs))"
proof (intro conjI impI)
  let ?bs = "localBuchungen bs"
  let ?d = "Day (LocalTime tz t)"
  assume later: "t \<noteq> UTC tz (?d * msPerDay)"
  have cov: "covers tz day z b \<longleftrightarrow> zimmer_id b = z \<and> occupies b ?d" if "b \<in> set ?bs" for b
    using assms(1) _ assms(3) later by (rule covers_occupies) (use assms(2) that in blast)
  have one: "b = c"
    if "b \<in> set ?bs" "c \<in> set ?bs" "zimmer_id b = z" "occupies b ?d"
      "zimmer_id c = z" "occupies c ?d" for b c
  proof (rule ccontr)
    assume "b \<noteq> c"
    with that assms(4) have "apart b c"
      by (intro pairwise_apart_pair [of ?bs]) (simp_all add: no_interior_overlap_def)
    with that show False
      using occupies_twice by blast
  qed
  show none: "getBuchungForDay tz day z ?bs = None \<longleftrightarrow>
      \<not> (\<exists>b \<in> set ?bs. zimmer_id b = z \<and> occupies b ?d)"
    using cov by (auto simp add: getBuchungForDay_find find_None_iff)
  show "\<forall>b. getBuchungForDay tz day z ?bs = Some b \<longleftrightarrow>
      b \<in> set ?bs \<and> zimmer_id b = z \<and> occupies b ?d"
  proof (intro allI iffI)
    fix b
    assume "getBuchungForDay tz day z ?bs = Some b"
    then have "b \<in> set ?bs" "covers tz day z b"
      by (auto simp add: getBuchungForDay_find find_Some_iff)
    with cov show "b \<in> set ?bs \<and> zimmer_id b = z \<and> occupies b ?d"
      by blast
  next
    fix b
    assume b: "b \<in> set ?bs \<and> zimmer_id b = z \<and> occupies b ?d"
    with none obtain c where c: "getBuchungForDay tz day z ?bs = Some c"
      by (cases "getBuchungForDay tz day z ?bs") auto
    then have "c \<in> set ?bs" "covers tz day z c"
      by (auto simp add: getBuchungForDay_find find_Some_iff)
    with cov have "c \<in> set ?bs" "zimmer_id c = z" "occupies c ?d"
      by blast+
    with b have "c = b"
      by (intro one) simp_all
    with c show "getBuchungForDay tz day z ?bs = Some b"
      by simp
  qed
  show "\<forall>b c. b \<in> set ?bs \<and> c \<in> set ?bs \<and> zimmer_id b = z \<and> occupies b ?d \<and>
      zimmer_id c = z \<and> occupies c ?d \<longrightarrow> b = c"
    using one by blast
next
  let ?bs = "localBuchungen bs"
  let ?d = "Day (LocalTime tz t)"
  assume first: "t = UTC tz (?d * msPerDay)"
  have "covers tz day z b \<longleftrightarrow> zimmer_id b = z \<and> in_inclusive_range b ?d" if "b \<in> set ?bs" for b
    using assms(1) _ assms(3) first by (rule covers_at_midnight) (use assms(2) that in blast)
  then have "find (covers tz day z) ?bs =
      find (\<lambda>b. zimmer_id b = z \<and> in_inclusive_range b ?d) ?bs"
    by (intro find_cong) simp_all
  then show "getBuchungForDay tz day z ?bs =
      find (\<lambda>b. zimmer_id b = z \<and> in_inclusive_range b ?d) ?bs"
    by (simp add: getBuchungForDay_find)
qed

text \<open>
  The witness, in the zone Europe/Rome: room 1 is booked from 10 June to 15 June and
  from 15 June to 20 June; the cell of 15 June, 10:00, is a day of the second booking
  only.
\<close>

theorem getBuchungForDay_half_open_witness:
  "regular_zone Europe_Rome_2024 \<and>
   date_strings (booking 1 1 ''2024-06-10'' ''2024-06-15'') \<and>
   date_strings (booking 2 1 ''2024-06-15'' ''2024-06-20'') \<and>
   date (june_cell Europe_Rome_2024 15 36000000) = Date 1718438400000 \<and>
   no_interior_overlap [booking 1 1 ''2024-06-10'' ''2024-06-15'',
                        booking 2 1 ''2024-06-15'' ''2024-06-20''] \<and>
   1718438400000 \<noteq>
     UTC Europe_Rome_2024 (Day (LocalTime Europe_Rome_2024 1718438400000) * msPerDay) \<and>
   getBuchungForDay Europe_Rome_2024 (june_cell Europe_Rome_2024 15 36000000) 1
     (localBuchungen [booking 1 1 ''2024-06-10'' ''2024-06-15'',
                      booking 2 1 ''2024-06-15'' ''2024-06-20''])
     = Some (booking 2 1 ''2024-06-15'' ''2024-06-20'')"
proof -
  let ?A = "booking 1 1 ''2024-06-10'' ''2024-06-15''"
  let ?B = "booking 2 1 ''2024-06-15'' ''2024-06-20''"
  let ?cell = "june_cell Europe_Rome_2024 15 36000000"
  have lb: "localBuchungen [?A, ?B] = [?A, ?B]"
    by (simp add: localBuchungen_def booking_def)
  have h1: "regular_zone Europe_Rome_2024"
    by (rule regular_Europe_Rome_2024)
  have ds: "date_strings ?A" "date_strings ?B"
    by (simp_all add: date_strings_def booking_def)
  then have h2: "\<forall>b \<in> set (localBuchungen [?A, ?B]). date_strings b"
    unfolding lb by simp
  have h3: "date ?cell = Date 1718438400000"
    by (simp add: date_june_cell UTC_Rome msPerDay_def)
  have h4: "no_interior_overlap [?A, ?B]"
    unfolding no_interior_overlap_def lb
    by (simp add: apart_def check_in_day_def check_out_day_def booking_def date_part_0610
        date_part_0615 date_part_0620)
  have "0 < TimeWithinDay (LocalTime Europe_Rome_2024 1718438400000)"
    by (simp add: LocalTime_Rome TimeWithinDay_def msPerDay_def)
  with h1 have later: "1718438400000 \<noteq>
      UTC Europe_Rome_2024 (Day (LocalTime Europe_Rome_2024 1718438400000) * msPerDay)"
    by (rule after_midnight)
  have "?B \<in> set (localBuchungen [?A, ?B]) \<and> zimmer_id ?B = 1 \<and>
      occupies ?B (Day (LocalTime Europe_Rome_2024 1718438400000))"
    unfolding lb
    by (simp add: occupies_def check_in_day_def check_out_day_def booking_def date_part_0615
        date_part_0620 LocalTime_Rome Day_def msPerDay_def)
  with later have "getBuchungForDay Europe_Rome_2024 ?cell 1 (localBuchungen [?A, ?B]) = Some ?B"
    using getBuchungForDay_half_open [OF h1 h2 h3 h4, of 1] by blast
  with h1 ds h3 h4 later show ?thesis
    by blast
qed

text \<open>
  The claim as stated fails on the check-out day.  Room 1 is booked from 10 June to
  15 June; the cell of 15 June, 10:00, is of a day in the inclusive range of the
  booking, and no booking is returned for it.  With a second booking of the room
  from 15 June to 20 June the invariant still holds, and the inclusive ranges of two
  different bookings contain that day.
\<close>

theorem getBuchungForDay_check_out_day:
  "no_interior_overlap [booking 1 1 ''2024-06-10'' ''2024-06-15''] \<and>
   \<not> truthy_string (deleted_at (booking 1 1 ''2024-06-10'' ''2024-06-15'')) \<and>
   zimmer_id (booking 1 1 ''2024-06-10'' ''2024-06-15'') = 1 \<and>
   local_day CEST (date (june_cell CEST 15 36000000)) = Some 19889 \<and>
   in_inclusive_range (booking 1 1 ''2024-06-10'' ''2024-06-15'') 19889 \<and>
   isSameDay CEST (date (june_cell CEST 15 36000000))
     (parseDate CEST (check_out (booking 1 1 ''2024-06-10'' ''2024-06-15''))) \<and>
   getBuchungForDay CEST (june_cell CEST 15 36000000) 1
     (localBuchungen [booking 1 1 ''2024-06-10'' ''2024-06-15'']) = None \<and>
   no_interior_overlap [booking 1 1 ''2024-06-10'' ''2024-06-15'',
                        booking 2 1 ''2024-06-15'' ''2024-06-20''] \<and>
   in_inclusive_range (booking 2 1 ''2024-06-15'' ''2024-06-20'') 19889 \<and>
   booking 1 1 ''2024-06-10'' ''2024-06-15'' \<noteq> booking 2 1 ''2024-06-15'' ''2024-06-20''"
  by (simp add: no_interior_overlap_def localBuchungen_def getBuchungForDay_def apart_def
      in_inclusive_range_def check_in_day_def check_out_day_def date_part_0610 date_part_0615
      date_part_0620 booking_def date_june_cell parseDate_0610 parseDate_0615 parseDate_0620
      date_ge_def isSameDay_iff Day_def CEST_def msPerDay_def)

section \<open>The summaries of the home screen and soft deletion\<close>

lemma foldl_persons:
  "foldl (\<lambda>sum b. sum + anzahl_personen b) a bs = a + sum_list (map anzahl_personen bs)"
  by (induction bs arbitrary: a) simp_all

lemma persons_sum_list: "persons bs = sum_list (map anzahl_personen bs)"
  by (simp add: persons_def foldl_persons)

text \<open>
  The check-in summary of the home screen for a date counts the sum of the persons of
  the bookings whose check-in, as the home screen reads it (\<^verbatim>\<open>new Date(b.check_in)\<close>),
  is on the local day of the date, and it lists one entry for each of them, in the
  order of the bookings.
\<close>

lemma checkIns_summary_filter:
  "fst (checkIns_summary tz d bs gaeste zimmer) =
     sum_list (map anzahl_personen
       (filter (\<lambda>b. isSameDay tz (new_Date tz (check_in b)) d) bs)) \<and>
   map fst (snd (checkIns_summary tz d bs gaeste zimmer)) =
     filter (\<lambda>b. isSameDay tz (new_Date tz (check_in b)) d) bs"
  by (simp add: checkIns_summary_def checkIn_bookings_def persons_sum_list comp_def)

text \<open>
  \<^verbatim>\<open>new Date\<close> reads a date string as midnight UTC of the day that it writes.
\<close>

lemma new_Date_date_string:
  assumes "CHR ''T'' \<notin> set s"
  shows "new_Date tz s =
    (case parse_date_part s of
       Some day \<Rightarrow> Date (day * msPerDay)
     | None \<Rightarrow> InvalidDate)"
proof -
  have t: "takeWhile (\<lambda>c. c \<noteq> CHR ''T'') s = s" "dropWhile (\<lambda>c. c \<noteq> CHR ''T'') s = []"
    using assms by (auto simp add: takeWhile_eq_all_conv)
  show ?thesis
    by (simp add: new_Date_def t MakeDate_def Let_def split: option.splits)
qed

text \<open>
  Claim C8 at a failing input.  The device is four hours behind UTC.  The table holds
  two bookings that are not deleted, with check-in \<^verbatim>\<open>2024-07-01\<close>, of two persons in
  room 1 and of three persons in room 2, and the selected date is 1 July 2024 (10:00
  local time).  The home screen reads the check-in with \<^verbatim>\<open>new Date(b.check_in)\<close>,
  which is midnight UTC, 20:00 of 30 June on the device: the summary of 1 July
  counts no person and has no entry, and the two bookings are counted on 30 June
  instead.  The calendar's \<open>parseDate\<close> reads the same string as a time of 1 July.
\<close>

theorem checkIns_summary_west_of_UTC:
  "checkIns_summary EDT (july EDT 1 36000000)
     [booking 1 1 ''2024-07-01'' ''2024-07-05'',
      (booking 2 2 ''2024-07-01'' ''2024-07-05'')\<lparr> anzahl_personen := 3 \<rparr>] [] [] = (0, []) \<and>
   fst (checkIns_summary EDT (new_Date_fields EDT 2024 5 30 36000000)
     [booking 1 1 ''2024-07-01'' ''2024-07-05'',
      (booking 2 2 ''2024-07-01'' ''2024-07-05'')\<lparr> anzahl_personen := 3 \<rparr>] [] []) = 5 \<and>
   isSameDay EDT (parseDate EDT ''2024-07-01'') (july EDT 1 36000000) \<and>
   getFullYear EDT (july EDT 1 36000000) = Some 2024 \<and>
   getMonth EDT (july EDT 1 36000000) = Some 6 \<and>
   getDate EDT (july EDT 1 36000000) = Some 1"
  by (simp add: checkIns_summary_def checkIn_bookings_def persons_def booking_def
      new_Date_0701 parseDate_0701 july_time new_Date_fields_june isSameDay_iff Day_def
      EDT_def msPerDay_def YearFromTime_def MonthFromTime_def DateFromTime_def
      YearFromDay_def MonthFromDay_def DateFromDay_def DayWithinYear_def DayFromYear_def
      InLeapYear_def DaysInYear_def monthStart_def)

text \<open>
  Where the zone is not behind UTC at midnight UTC of the check-in days (and less
  than a day ahead), the home screen does read a date string as a time of the day
  that it writes, and the check-ins of a date are the bookings whose check-in day is
  the local day of the date.
\<close>

theorem checkIn_bookings_east_of_UTC:
  assumes "\<forall>b \<in> set bs. CHR ''T'' \<notin> set (check_in b)"
    and "\<forall>b \<in> set bs. \<forall>day. check_in_day b = Some day \<longrightarrow>
           0 \<le> utc_offset tz (day * msPerDay) \<and> utc_offset tz (day * msPerDay) < msPerDay"
  shows "checkIn_bookings tz (Date t) bs =
     filter (\<lambda>b. check_in_day b = Some (Day (LocalTime tz t))) bs"
  unfolding checkIn_bookings_def
proof (rule filter_cong [OF refl])
  fix b
  assume b: "b \<in> set bs"
  show "isSameDay tz (new_Date tz (check_in b)) (Date t) =
      (check_in_day b = Some (Day (LocalTime tz t)))"
  proof (cases "check_in_day b")
    case None
    with b assms(1) show ?thesis
      by (simp add: new_Date_date_string check_in_day_def)
  next
    case (Some day)
    with b assms(2) have "0 \<le> utc_offset tz (day * msPerDay)"
      "utc_offset tz (day * msPerDay) < msPerDay"
      by auto
    then have "Day (LocalTime tz (day * msPerDay)) = day"
      unfolding LocalTime_def by (intro Day_eqI) simp_all
    with Some b assms(1) show ?thesis
      by (auto simp add: new_Date_date_string check_in_day_def isSameDay_iff)
  qed
qed

theorem checkIn_bookings_east_of_UTC_witness:
  "checkIn_bookings CEST (july CEST 1 36000000)
     [booking 1 1 ''2024-07-01'' ''2024-07-05'', booking 2 2 ''2024-06-15'' ''2024-06-20''] =
     [booking 1 1 ''2024-07-01'' ''2024-07-05'']"
proof -
  let ?bs = "[booking 1 1 ''2024-07-01'' ''2024-07-05'', booking 2 2 ''2024-06-15'' ''2024-06-20'']"
  have a: "\<forall>b \<in> set ?bs. CHR ''T'' \<notin> set (check_in b)"
    by (simp add: booking_def)
  have b: "\<forall>b \<in> set ?bs. \<forall>day. check_in_day b = Some day \<longrightarrow>
      0 \<le> utc_offset CEST (day * msPerDay) \<and> utc_offset CEST (day * msPerDay) < msPerDay"
    by (simp add: CEST_def fixed_zone_def msPerDay_def)
  have "checkIn_bookings CEST (Date (UTC CEST ((19904 + 1) * msPerDay + 36000000))) ?bs =
      filter (\<lambda>b. check_in_day b =
        Some (Day (LocalTime CEST (UTC CEST ((19904 + 1) * msPerDay + 36000000))))) ?bs"
    using a b by (rule checkIn_bookings_east_of_UTC)
  then show ?thesis
    by (simp add: july_time check_in_day_def booking_def date_part_0701 date_part_0615
        CEST_def Day_def msPerDay_def)
qed

text \<open>
  Claim C5 at a failing input.  The table holds one booking, soft-deleted on 30 June,
  from 1 July to 5 July, two persons, half board.  The loader of the calendar
  (\<open>syncFullBuchungen\<close>) and the calendar's own filter (\<open>localBuchungen\<close>) drop it;
  the home screen loads every row (\<open>fetchData\<close>) and counts the booking among the
  check-ins of 1 July, the check-outs of 5 July, the guests present on 3 July and the
  breakfast and half-board counts of 3 July.
\<close>

theorem home_screen_counts_deleted:
  "truthy_string (deleted_at deleted_booking) \<and>
   syncFullBuchungen [deleted_booking] = [] \<and>
   localBuchungen [deleted_booking] = [] \<and>
   checkIns_summary CEST (july CEST 1 36000000) (fetchData [deleted_booking]) [] [] =
     (2, [(deleted_booking, ''Zimmer  - Unbekannt'')]) \<and>
   persons (checkOut_bookings CEST (july CEST 5 36000000) (fetchData [deleted_booking])) = 2 \<and>
   anwesende_bookings CEST (july CEST 3 36000000) (fetchData [deleted_booking]) = [deleted_booking] \<and>
   persons (fruehstueck_bookings CEST (july CEST 3 36000000) (fetchData [deleted_booking])) = 2 \<and>
   persons (halbpension_bookings CEST (july CEST 3 36000000) (fetchData [deleted_booking])) = 2"
  by (simp add: deleted_booking_def booking_def syncFullBuchungen_def localBuchungen_def
      fetchData_def checkIns_summary_def checkIn_bookings_def checkOut_bookings_def
      anwesende_bookings_def fruehstueck_bookings_def halbpension_bookings_def persons_def
      summary_entry_def new_Date_0701 new_Date_0705 july_time isSameDay_iff Day_def
      date_gt_def date_ge_def CEST_def msPerDay_def)

text \<open>
  On the calendar's side the claim holds: a booking whose \<open>deleted_at\<close> is a
  non-empty string is not among \<open>localBuchungen\<close>, so it is never the booking of a
  day, and the availability of an interval is the same with and without it.
\<close>

theorem calendar_ignores_deleted:
  assumes "truthy_string (deleted_at b)"
  shows "localBuchungen (bs1 @ b # bs2) = localBuchungen (bs1 @ bs2) \<and>
    getBuchungForDay tz day z (localBuchungen bs) \<noteq> Some b \<and>
    isIntervalAvailableForzimmer tz zimmerId s e (localBuchungen (bs1 @ b # bs2)) =
      isIntervalAvailableForzimmer tz zimmerId s e (localBuchungen (bs1 @ bs2))"
proof -
  have "b \<notin> set (localBuchungen bs)"
    using assms by (simp add: localBuchungen_def)
  moreover have "getBuchungForDay tz day z (localBuchungen bs) = Some b \<Longrightarrow>
      b \<in> set (localBuchungen bs)"
    by (auto simp add: getBuchungForDay_find find_Some_iff)
  moreover have "localBuchungen (bs1 @ b # bs2) = localBuchungen (bs1 @ bs2)"
    using assms by (simp add: localBuchungen_def)
  ultimately show ?thesis
    by auto
qed

theorem calendar_ignores_deleted_witness:
  "truthy_string (deleted_at deleted_booking) \<and>
   localBuchungen ([booking 1 1 ''2024-06-10'' ''2024-06-15''] @ deleted_booking # []) =
     localBuchungen ([booking 1 1 ''2024-06-10'' ''2024-06-15''] @ []) \<and>
   getBuchungForDay CEST (june_cell CEST 12 36000000) 1
     (localBuchungen [deleted_booking]) \<noteq> Some deleted_booking"
proof -
  have d: "truthy_string (deleted_at deleted_booking)"
    by (simp add: deleted_booking_def booking_def)
  from d calendar_ignores_deleted [OF d, of "[booking 1 1 ''2024-06-10'' ''2024-06-15'']" "[]"
      CEST "june_cell CEST 12 36000000" 1 "[deleted_booking]"]
  show ?thesis
    by blast
qed

section \<open>The geometry of the booking blocks\<close>

text \<open>
  Claim C9, as amended.  A booking whose check-in and check-out days are both in the
  grid is drawn as a block that starts at the horizontal centre of the check-in
  column, \<open>left = startIndex * W + W / 2\<close>.  A booking over several days ends at the
  centre of the check-out column, \<open>width = (endIndex - startIndex) * W\<close>.  A booking of a
  single day is half a column wide and covers the right half of its column, from the
  centre of the column to its right edge; it is not centred in the column.  \<open>W\<close> is
  \<open>DAY_WIDTH\<close>.
\<close>

theorem bookingBlock_geometry:
  "map_option (\<lambda>k. (left k, width k)) (bookingBlock tz daysArray gaeste b) =
     (let startIndex = findDayIndex tz (parseDate tz (check_in b)) daysArray;
          endIndex = findDayIndex tz (parseDate tz (check_out b)) daysArray in
      if startIndex < 0 \<or> endIndex < 0 then None
      else Some (of_int startIndex * DAY_WIDTH + DAY_WIDTH / 2,
                 if startIndex = endIndex then DAY_WIDTH / 2
                 else of_int (endIndex - startIndex) * DAY_WIDTH)) \<and>
   (\<forall>k. check_in b = check_out b \<and> bookingBlock tz daysArray gaeste b = Some k \<longrightarrow>
      left k = of_int (findDayIndex tz (parseDate tz (check_in b)) daysArray) * DAY_WIDTH
                 + DAY_WIDTH / 2 \<and>
      width k = DAY_WIDTH / 2 \<and>
      left k + width k =
        of_int (findDayIndex tz (parseDate tz (check_in b)) daysArray + 1) * DAY_WIDTH)"
  by (auto simp add: bookingBlock_def Let_def algebra_simps DAY_WIDTH_def)

theorem bookingBlock_geometry_witness:
  "check_in (booking 1 1 ''2024-06-10'' ''2024-06-10'')
     = check_out (booking 1 1 ''2024-06-10'' ''2024-06-10'') \<and>
   bookingBlock CEST [june_cell CEST 9 36000000, june_cell CEST 10 36000000] []
     (booking 1 1 ''2024-06-10'' ''2024-06-10'') =
     Some \<lparr> left = 90, width = 30, label = ''Unbekannt (2P) '', backgroundColor = ''#ffcccc'' \<rparr> \<and>
   findDayIndex CEST (parseDate CEST (check_in (booking 1 1 ''2024-06-10'' ''2024-06-10'')))
     [june_cell CEST 9 36000000, june_cell CEST 10 36000000] = 1 \<and>
   left \<lparr> left = 90, width = 30, label = ''Unbekannt (2P) '', backgroundColor = ''#ffcccc'' \<rparr>
     + width \<lparr> left = 90, width = 30, label = ''Unbekannt (2P) '', backgroundColor = ''#ffcccc'' \<rparr>
     = of_int (1 + 1) * DAY_WIDTH"
proof -
  let ?b = "booking 1 1 ''2024-06-10'' ''2024-06-10''"
  let ?days = "[june_cell CEST 9 36000000, june_cell CEST 10 36000000]"
  let ?k = "\<lparr> left = 90, width = 30, label = ''Unbekannt (2P) '', backgroundColor = ''#ffcccc'' \<rparr>"
  have i: "findDayIndex CEST (parseDate CEST (check_in ?b)) ?days = 1"
    by (simp add: findDayIndex_def booking_def date_june_cell parseDate_0610 isSameDay_iff
        Day_def CEST_def msPerDay_def)
  have eq: "check_in ?b = check_out ?b"
    by (simp add: booking_def)
  have blk: "bookingBlock CEST ?days [] ?b = Some ?k"
    by (simp add: bookingBlock_def findDayIndex_def booking_def date_june_cell parseDate_0610
        isSameDay_iff Day_def CEST_def msPerDay_def DAY_WIDTH_def Fruehstueck_def
        Halbpension_def)
  from bookingBlock_geometry [of CEST ?days "[]" ?b, THEN conjunct2, rule_format, of ?k] eq blk
  have "left ?k + width ?k = of_int (findDayIndex CEST (parseDate CEST (check_in ?b)) ?days + 1)
      * DAY_WIDTH"
    by blast
  then have "left ?k + width ?k = of_int (1 + 1) * DAY_WIDTH"
    by (simp only: i)
  with eq blk i show ?thesis
    by blast
qed

text \<open>
  The claim as stated fails for the single day: in a grid of the one day 10 June the
  block of a booking from 10 June to 10 June starts at 30 and is 30 wide, so its
  centre is at 45, and the centre of the column is at 30.
\<close>

theorem single_day_block_not_centred:
  "findDayIndex CEST (parseDate CEST (check_in (booking 1 1 ''2024-06-10'' ''2024-06-10'')))
     [june_cell CEST 10 36000000] = 0 \<and>
   map_option (\<lambda>k. (left k, width k))
     (bookingBlock CEST [june_cell CEST 10 36000000] []
        (booking 1 1 ''2024-06-10'' ''2024-06-10'')) = Some (30, 30) \<and>
   (30 :: rat) + 30 / 2 \<noteq> 0 * DAY_WIDTH + DAY_WIDTH / 2"
  by (simp add: bookingBlock_def findDayIndex_def booking_def date_june_cell parseDate_0610
      isSameDay_iff Day_def CEST_def msPerDay_def DAY_WIDTH_def)

section \<open>The grid of days\<close>

lemma date_formatDayCellData [simp]: "date (formatDayCellData tz loc d) = d"
  by (simp add: formatDayCellData_def)

lemma days_loop_stop:
  "\<not> date_le current endDate \<Longrightarrow> days_loop tz loc current endDate acc = Some acc"
  by (subst days_loop.simps) simp

lemma days_loop_step:
  "c \<le> e \<Longrightarrow> days_loop tz loc (Date c) (Date e) acc =
     days_loop tz loc (Date (UTC tz (LocalTime tz c + msPerDay))) (Date e)
       (acc @ [formatDayCellData tz loc (Date c)])"
  using setDate_local [of tz c 1] by (subst days_loop.simps) simp

text \<open>
  A run of the loop over \<open>n\<close> days on which \<^verbatim>\<open>setDate\<close> moves the instant by 24 hours.
\<close>

lemma days_loop_steady:
  assumes "\<forall>k < n. UTC tz (LocalTime tz (c + int k * msPerDay) + msPerDay)
                   = c + int k * msPerDay + msPerDay"
    and "\<forall>k < n. c + int k * msPerDay \<le> e"
  shows "days_loop tz loc (Date c) (Date e) acc =
     days_loop tz loc (Date (c + int n * msPerDay)) (Date e)
       (acc @ map (\<lambda>k. formatDayCellData tz loc (Date (c + int k * msPerDay))) [0..<n])"
  using assms
proof (induction n arbitrary: acc)
  case 0
  then show ?case by simp
next
  case (Suc n)
  have "days_loop tz loc (Date c) (Date e) acc =
      days_loop tz loc (Date (c + int n * msPerDay)) (Date e)
        (acc @ map (\<lambda>k. formatDayCellData tz loc (Date (c + int k * msPerDay))) [0..<n])"
    using Suc.prems by (intro Suc.IH) simp_all
  also have "\<dots> = days_loop tz loc (Date (UTC tz (LocalTime tz (c + int n * msPerDay) + msPerDay)))
      (Date e)
      ((acc @ map (\<lambda>k. formatDayCellData tz loc (Date (c + int k * msPerDay))) [0..<n]) @
       [formatDayCellData tz loc (Date (c + int n * msPerDay))])"
    using Suc.prems(2) by (intro days_loop_step) simp
  also have "UTC tz (LocalTime tz (c + int n * msPerDay) + msPerDay) = c + int (Suc n) * msPerDay"
    using Suc.prems(1) by (simp add: algebra_simps)
  finally show ?case
    by simp
qed

lemma Rome_step:
  assumes "c < 1711846800000 \<and> c + msPerDay < 1711850400000 \<or>
           1711846800000 \<le> c \<and> c + msPerDay < 1729990800000"
  shows "UTC Europe_Rome_2024 (LocalTime Europe_Rome_2024 c + msPerDay) = c + msPerDay"
  using assms by (auto simp add: LocalTime_Rome UTC_Rome msPerDay_def)

lemma Rome_grid_loop:
  "days_loop Europe_Rome_2024 loc (Date 1710466200000) (Date 1727224200000) [] =
     Some (map (\<lambda>k. formatDayCellData Europe_Rome_2024 loc
                        (Date (1710466200000 + int k * msPerDay))) [0..<194])"
proof -
  have step: "\<forall>k < 194. UTC Europe_Rome_2024
        (LocalTime Europe_Rome_2024 (1710466200000 + int k * msPerDay) + msPerDay)
      = 1710466200000 + int k * msPerDay + msPerDay"
  proof (intro allI impI)
    fix k :: nat
    assume "k < 194"
    then have "int k \<le> 15 \<or> 16 \<le> int k \<and> int k \<le> 193"
      by arith
    then have "1710466200000 + int k * msPerDay < 1711846800000 \<and>
          1710466200000 + int k * msPerDay + msPerDay < 1711850400000 \<or>
        1711846800000 \<le> 1710466200000 + int k * msPerDay \<and>
          1710466200000 + int k * msPerDay + msPerDay < 1729990800000"
    proof
      assume "int k \<le> 15"
      then have "1710466200000 + int k * msPerDay < 1711846800000"
        "1710466200000 + int k * msPerDay + msPerDay < 1711850400000"
        unfolding msPerDay_def by linarith+
      then show ?thesis
        by blast
    next
      assume "16 \<le> int k \<and> int k \<le> 193"
      then have "1711846800000 \<le> 1710466200000 + int k * msPerDay"
        "1710466200000 + int k * msPerDay + msPerDay < 1729990800000"
        unfolding msPerDay_def by linarith+
      then show ?thesis
        by blast
    qed
    then show "UTC Europe_Rome_2024
        (LocalTime Europe_Rome_2024 (1710466200000 + int k * msPerDay) + msPerDay)
      = 1710466200000 + int k * msPerDay + msPerDay"
      by (rule Rome_step)
  qed
  have le: "\<forall>k < 194. 1710466200000 + int k * msPerDay \<le> 1727224200000"
    by (auto simp add: msPerDay_def)
  have "days_loop Europe_Rome_2024 loc (Date 1710466200000) (Date 1727224200000) [] =
      days_loop Europe_Rome_2024 loc (Date (1710466200000 + int 194 * msPerDay))
        (Date 1727224200000)
        ([] @ map (\<lambda>k. formatDayCellData Europe_Rome_2024 loc
                          (Date (1710466200000 + int k * msPerDay))) [0..<194])"
    using step le by (rule days_loop_steady)
  also have "\<dots> = Some (map (\<lambda>k. formatDayCellData Europe_Rome_2024 loc
                        (Date (1710466200000 + int k * msPerDay))) [0..<194])"
    by (simp add: days_loop_stop msPerDay_def)
  finally show ?thesis .
qed

lemma Rome_grid_start:
  "setDate Europe_Rome_2024 (Date 1711330200000)
     (num_add (getDate Europe_Rome_2024 (Date 1711330200000)) (- 10)) = Date 1710466200000"
  by (subst setDate_local) (simp add: LocalTime_Rome UTC_Rome msPerDay_def)

lemmas day_field_defs =
  YearFromDay_def MonthFromDay_def DateFromDay_def DayWithinYear_def DayFromYear_def
  InLeapYear_def DaysInYear_def monthStart_def Let_def

lemma fields_19807:
  "YearFromDay 19807 = 2024" "MonthFromDay 19807 = 2" "DateFromDay 19807 = 25"
  by (simp_all add: day_field_defs)

lemma fields_19990:
  "YearFromDay 19990 = 2024" "MonthFromDay 19990 = 8" "DateFromDay 19990 = 24"
  by (simp_all add: day_field_defs)

lemma MakeDay_2024_8_25: "MakeDay 2024 8 25 = 19991"
  by (simp add: MakeDay_def DayFromYear_def InLeapYear_def DaysInYear_def monthStart_def)

lemma Rome_grid_end:
  "setMonth Europe_Rome_2024 (Date 1711330200000)
     (num_add (getMonth Europe_Rome_2024 (Date 1711330200000)) 6) = Date 1727224200000"
proof -
  have l: "LocalTime Europe_Rome_2024 1711330200000 = 1711333800000"
    by (simp add: LocalTime_Rome)
  have d: "Day 1711333800000 = 19807" "TimeWithinDay 1711333800000 = 9000000"
    by (simp_all add: Day_def TimeWithinDay_def msPerDay_def)
  show ?thesis
    by (simp add: l YearFromTime_def MonthFromTime_def DateFromTime_def d fields_19807
        MakeDay_2024_8_25 MakeDate_def UTC_Rome msPerDay_def)
qed

lemma findIndex_none: "\<forall>x \<in> set xs. \<not> P x \<Longrightarrow> findIndex P xs = - 1"
  by (induction xs) simp_all

lemma Rome_grid_day:
  "Day (LocalTime Europe_Rome_2024 (1710466200000 + int k * msPerDay)) = 19797 + int k"
  by (rule Day_eqI) (auto simp add: LocalTime_Rome msPerDay_def)

lemma Rome_grid_last:
  "formatDayCellData Europe_Rome_2024 (de_DE Europe_Rome_2024)
     (Date (1710466200000 + int 193 * msPerDay)) =
   \<lparr> date = new_Date_fields Europe_Rome_2024 2024 8 24 12600000,
     dayNumber = ''24'', monthYear = ''09/2024'' \<rparr>"
proof -
  have t: "1710466200000 + int 193 * msPerDay = 1727141400000"
    by (simp add: msPerDay_def)
  have l: "LocalTime Europe_Rome_2024 1727141400000 = 1727148600000"
    by (simp add: LocalTime_Rome)
  have d: "Day 1727148600000 = 19990"
    by (simp add: Day_def msPerDay_def)
  have m: "MakeDay 2024 8 24 = 19990"
    by (simp add: MakeDay_def DayFromYear_def InLeapYear_def DaysInYear_def monthStart_def)
  show ?thesis
    unfolding t
    by (simp add: formatDayCellData_def de_DE_def l YearFromTime_def MonthFromTime_def
        DateFromTime_def d fields_19990 padStart2_def new_Date_fields_def m MakeDate_def
        UTC_Rome msPerDay_def)
qed

text \<open>
  \<^verbatim>\<open>setDate\<close> into the hour that summer time skips: from 30 March 2024, 02:30, the
  next day is 31 March, 03:30.
\<close>

lemma Rome_skipped_hour:
  "setDate Europe_Rome_2024 (new_Date_fields Europe_Rome_2024 2024 2 30 9000000)
     (num_add (getDate Europe_Rome_2024 (new_Date_fields Europe_Rome_2024 2024 2 30 9000000)) 1)
   = new_Date_fields Europe_Rome_2024 2024 2 31 12600000"
proof -
  have a: "new_Date_fields Europe_Rome_2024 2024 2 30 9000000 = Date 1711762200000"
    and b: "new_Date_fields Europe_Rome_2024 2024 2 31 12600000 = Date 1711848600000"
    by (simp_all add: new_Date_fields_def calendar_defs UTC_Rome msPerDay_def)
  show ?thesis
    unfolding a b by (subst setDate_local) (simp add: LocalTime_Rome UTC_Rome msPerDay_def)
qed

text \<open>
  Claim C7 at a failing input.  The device is in the zone Europe/Rome and the grid is
  generated with the initial arguments, ten days back and six months ahead, on
  25 March 2024 at 02:30 local time (both clock readings are that instant).  The
  cells run from 15 March on.  On 30 March \<^verbatim>\<open>setDate\<close> makes the local time 02:30 of
  31 March, which summer time skips; the runtime reads it as 03:30, and every later
  cell is at 03:30 of its day.  The end date is 25 September, 02:30, so the test
  \<^verbatim>\<open>current <= endDate\<close> fails for the cell of 25 September: the grid has 194 cells,
  its last cell is 24 September, and the day of today plus six months is not in it.
\<close>

theorem generateDaysArray_skipped_hour:
  "Date 1711330200000 = new_Date_fields Europe_Rome_2024 2024 2 25 9000000 \<and>
   generateDaysArray Europe_Rome_2024 (de_DE Europe_Rome_2024) 1711330200000 1711330200000 10 6 =
     Some (map (\<lambda>k. formatDayCellData Europe_Rome_2024 (de_DE Europe_Rome_2024)
                        (Date (1710466200000 + int k * msPerDay))) [0..<194]) \<and>
   map_option length
     (generateDaysArray Europe_Rome_2024 (de_DE Europe_Rome_2024) 1711330200000 1711330200000 10 6)
     = Some 194 \<and>
   map_option last
     (generateDaysArray Europe_Rome_2024 (de_DE Europe_Rome_2024) 1711330200000 1711330200000 10 6)
     = Some \<lparr> date = new_Date_fields Europe_Rome_2024 2024 8 24 12600000,
              dayNumber = ''24'', monthYear = ''09/2024'' \<rparr> \<and>
   setDate Europe_Rome_2024 (new_Date_fields Europe_Rome_2024 2024 2 30 9000000)
       (num_add (getDate Europe_Rome_2024 (new_Date_fields Europe_Rome_2024 2024 2 30 9000000)) 1)
     = new_Date_fields Europe_Rome_2024 2024 2 31 12600000 \<and>
   setMonth Europe_Rome_2024 (Date 1711330200000)
       (num_add (getMonth Europe_Rome_2024 (Date 1711330200000)) 6)
     = new_Date_fields Europe_Rome_2024 2024 8 25 9000000 \<and>
   map_option (findDayIndex Europe_Rome_2024 (new_Date_fields Europe_Rome_2024 2024 8 25 9000000))
     (generateDaysArray Europe_Rome_2024 (de_DE Europe_Rome_2024) 1711330200000 1711330200000 10 6)
     = Some (- 1)"
proof -
  let ?cell = "\<lambda>k. formatDayCellData Europe_Rome_2024 (de_DE Europe_Rome_2024)
                  (Date (1710466200000 + int k * msPerDay))"
  have now: "Date 1711330200000 = new_Date_fields Europe_Rome_2024 2024 2 25 9000000"
    by (simp add: new_Date_fields_def MakeDay_def DayFromYear_def InLeapYear_def DaysInYear_def
        monthStart_def MakeDate_def UTC_Rome msPerDay_def)
  have endD: "new_Date_fields Europe_Rome_2024 2024 8 25 9000000 = Date 1727224200000"
    by (simp add: new_Date_fields_def MakeDay_2024_8_25 MakeDate_def UTC_Rome msPerDay_def)
  have grid: "generateDaysArray Europe_Rome_2024 (de_DE Europe_Rome_2024)
      1711330200000 1711330200000 10 6 = Some (map ?cell [0..<194])"
    unfolding generateDaysArray_def Let_def Rome_grid_start Rome_grid_end
    by (rule Rome_grid_loop)
  have len: "length (map ?cell [0..<194]) = 194"
    by simp
  have "last (map ?cell [0..<194]) = ?cell 193"
    by (simp add: last_conv_nth del: upt_Suc)
  then have last: "last (map ?cell [0..<194]) =
      \<lparr> date = new_Date_fields Europe_Rome_2024 2024 8 24 12600000,
        dayNumber = ''24'', monthYear = ''09/2024'' \<rparr>"
    by (simp only: Rome_grid_last)
  have "LocalTime Europe_Rome_2024 1727224200000 = 1727231400000"
    by (simp add: LocalTime_Rome)
  then have "Day (LocalTime Europe_Rome_2024 1727224200000) = 19991"
    by (simp add: Day_def msPerDay_def)
  then have "\<forall>c \<in> set (map ?cell [0..<194]).
      \<not> isSameDay Europe_Rome_2024 (date c) (Date 1727224200000)"
    by (auto simp add: isSameDay_iff Rome_grid_day simp del: upt_Suc)
  then have index: "findDayIndex Europe_Rome_2024 (Date 1727224200000) (map ?cell [0..<194]) = - 1"
    unfolding findDayIndex_def by (rule findIndex_none)
  show ?thesis
    unfolding grid option.map endD Rome_grid_end Rome_skipped_hour len last index
    using now endD by simp
qed

lemma InLeapYear_range: "0 \<le> InLeapYear y \<and> InLeapYear y \<le> 1"
  by (simp add: InLeapYear_def)

lemma DaysInYear_ge: "365 \<le> DaysInYear y"
  by (simp add: DaysInYear_def)

lemma monthStart_mono:
  assumes "0 \<le> m" and "m < 11" and "0 \<le> l"
  shows "monthStart m l \<le> monthStart (m + 1) l"
proof -
  from assms have "m = 0 \<or> m = 1 \<or> m = 2 \<or> m = 3 \<or> m = 4 \<or> m = 5 \<or> m = 6 \<or> m = 7 \<or>
      m = 8 \<or> m = 9 \<or> m = 10"
    by arith
  then show ?thesis
    using assms(3) by (elim disjE) (simp_all add: monthStart_def)
qed

text \<open>The day number of the first of a month does not decrease from month to month.\<close>

lemma div_mod_succ:
  fixes a b :: int
  assumes "0 < b"
  shows "(a + 1) div b = (if a mod b = b - 1 then a div b + 1 else a div b)"
    and "(a + 1) mod b = (if a mod b = b - 1 then 0 else a mod b + 1)"
proof -
  define q where "q = a div b"
  define r where "r = a mod b"
  have a: "a = b * q + r"
    by (simp add: q_def r_def)
  have r: "0 \<le> r" "r < b"
    using assms by (simp_all add: r_def)
  have "(a + 1) div b = (if r = b - 1 then q + 1 else q) \<and>
      (a + 1) mod b = (if r = b - 1 then 0 else r + 1)"
  proof (cases "r = b - 1")
    case True
    then have "a + 1 = b * (q + 1) + 0"
      using a by (simp add: algebra_simps)
    then have "(a + 1) div b = q + 1" "(a + 1) mod b = 0"
      using assms
      by (simp_all only: int_div_pos_eq [of _ b "q + 1" 0] int_mod_pos_eq [of _ b "q + 1" 0])
    with True show ?thesis
      by simp
  next
    case False
    then have r1: "0 \<le> r + 1" "r + 1 < b"
      using r by simp_all
    have "a + 1 = b * q + (r + 1)"
      using a by simp
    then have "(a + 1) div b = q" "(a + 1) mod b = r + 1"
      using r1 by (simp_all only: int_div_pos_eq [of _ b q "r + 1"] int_mod_pos_eq [of _ b q "r + 1"])
    with False show ?thesis
      by simp
  qed
  then show "(a + 1) div b = (if a mod b = b - 1 then a div b + 1 else a div b)"
    and "(a + 1) mod b = (if a mod b = b - 1 then 0 else a mod b + 1)"
    by (simp_all add: q_def r_def)
qed

lemma mod_12_succ: "(m + 1) mod 12 = (if m mod 12 = 11 then 0 else m mod 12 + 1)" for m :: int
  using div_mod_succ(2) [of 12 m] by simp

lemma div_12_succ: "(m + 1) div 12 = (if m mod 12 = 11 then m div 12 + 1 else m div 12)" for m :: int
  using div_mod_succ(1) [of 12 m] by simp

lemma MakeDay_month_step: "MakeDay y m d \<le> MakeDay y (m + 1) d"
proof (cases "m mod 12 = 11")
  case True
  then have dm: "(m + 1) div 12 = m div 12 + 1" "(m + 1) mod 12 = 0"
    by (simp_all add: mod_12_succ div_12_succ)
  have "MakeDay y m d =
      DayFromYear (y + m div 12) + (334 + InLeapYear (y + m div 12)) + d - 1"
    unfolding MakeDay_def Let_def True by (simp add: monthStart_def)
  moreover have "MakeDay y (m + 1) d = DayFromYear (y + m div 12 + 1) + d - 1"
    unfolding MakeDay_def Let_def dm by (simp add: monthStart_def add.assoc)
  moreover have "DayFromYear (y + m div 12) + 334 + InLeapYear (y + m div 12)
      \<le> DayFromYear (y + m div 12 + 1)"
    using DayFromYear_step [of "y + m div 12"] DaysInYear_ge [of "y + m div 12"]
      InLeapYear_range [of "y + m div 12"] by simp
  ultimately show ?thesis
    by simp
next
  case False
  then have dm: "(m + 1) div 12 = m div 12" "(m + 1) mod 12 = m mod 12 + 1"
    by (simp_all add: mod_12_succ div_12_succ)
  from False have "0 \<le> m mod 12" "m mod 12 < 11"
    using pos_mod_bound [of 12 m] by simp_all
  then have "monthStart (m mod 12) (InLeapYear (y + m div 12))
      \<le> monthStart (m mod 12 + 1) (InLeapYear (y + m div 12))"
    using InLeapYear_range [of "y + m div 12"] by (intro monthStart_mono) simp_all
  then show ?thesis
    unfolding MakeDay_def Let_def dm by simp
qed

lemma MakeDay_month_mono_nat: "MakeDay y m d \<le> MakeDay y (m + int f) d"
proof (induction f)
  case 0
  then show ?case by simp
next
  case (Suc f)
  have "MakeDay y (m + int f) d \<le> MakeDay y (m + int f + 1) d"
    by (rule MakeDay_month_step)
  with Suc show ?case
    by (simp add: algebra_simps)
qed

lemma MakeDay_month_mono: "0 \<le> f \<Longrightarrow> MakeDay y m d \<le> MakeDay y (m + f) d"
  using MakeDay_month_mono_nat [of y m d "nat f"] by simp

lemma findIndex_first:
  "i < length xs \<Longrightarrow> P (xs ! i) \<Longrightarrow> (\<forall>j < i. \<not> P (xs ! j)) \<Longrightarrow> findIndex P xs = int i"
proof (induction xs arbitrary: i)
  case Nil
  then show ?case by simp
next
  case (Cons x xs)
  show ?case
  proof (cases i)
    case 0
    with Cons.prems show ?thesis by simp
  next
    case (Suc k)
    with Cons.prems have "\<not> P x"
      by auto
    moreover from Suc Cons.prems have "findIndex P xs = int k"
      by (intro Cons.IH) auto
    ultimately show ?thesis
      using Suc by simp
  qed
qed

lemma DayFromYear_mono_nat: "DayFromYear y \<le> DayFromYear (y + int n)"
proof (induction n)
  case 0
  then show ?case by simp
next
  case (Suc n)
  have "DayFromYear (y + int n + 1) = DayFromYear (y + int n) + DaysInYear (y + int n)"
    by (rule DayFromYear_step)
  with Suc DaysInYear_ge [of "y + int n"] show ?case
    by (simp add: algebra_simps)
qed

lemma DayFromYear_mono: "y \<le> y' \<Longrightarrow> DayFromYear y \<le> DayFromYear y'"
  using DayFromYear_mono_nat [of y "nat (y' - y)"] by simp

lemma YearFromDay_unique:
  assumes "DayFromYear y \<le> d" and "d < DayFromYear (y + 1)"
  shows "YearFromDay d = y"
proof (rule ccontr)
  assume ne: "YearFromDay d \<noteq> y"
  note spec = YearFromDay_spec [of d]
  show False
  proof (cases "YearFromDay d < y")
    case True
    then have "DayFromYear (YearFromDay d + 1) \<le> DayFromYear y"
      by (intro DayFromYear_mono) simp
    with spec assms show False
      by simp
  next
    case False
    with ne have "DayFromYear (y + 1) \<le> DayFromYear (YearFromDay d)"
      by (intro DayFromYear_mono) simp
    with spec assms show False
      by simp
  qed
qed

text \<open>
  The day that \<open>MakeDay\<close> makes of a year, a month (carried into the year when it is
  out of range) and a day of the month that every month has is the day with these
  calendar fields.
\<close>

lemma MakeDay_valid:
  assumes "1 \<le> dt" and "dt \<le> 28"
  shows "YearFromDay (MakeDay y m dt) = y + m div 12"
    and "MonthFromDay (MakeDay y m dt) = m mod 12"
    and "DateFromDay (MakeDay y m dt) = dt"
proof -
  define Y where "Y = y + m div 12"
  define mm where "mm = m mod 12"
  define leap where "leap = InLeapYear Y"
  define w where "w = monthStart mm leap + dt - 1"
  have mm: "mm = 0 \<or> mm = 1 \<or> mm = 2 \<or> mm = 3 \<or> mm = 4 \<or> mm = 5 \<or> mm = 6 \<or> mm = 7 \<or>
      mm = 8 \<or> mm = 9 \<or> mm = 10 \<or> mm = 11"
    using pos_mod_sign [of 12 m] pos_mod_bound [of 12 m] unfolding mm_def by arith
  have leap: "leap = 0 \<or> leap = 1"
    by (simp add: leap_def InLeapYear_def)
  have days: "DaysInYear Y = 365 + leap"
    by (simp add: leap_def InLeapYear_def DaysInYear_def)
  have md: "MakeDay y m dt = DayFromYear Y + w"
    by (simp add: MakeDay_def Let_def Y_def mm_def leap_def w_def)
  have w: "0 \<le> w" "w < 365 + leap"
    using mm leap assms by (auto simp add: w_def monthStart_def)
  have "DayFromYear (Y + 1) = DayFromYear Y + (365 + leap)"
    using DayFromYear_step [of Y] days by simp
  with w have year: "YearFromDay (DayFromYear Y + w) = Y"
    by (intro YearFromDay_unique) simp_all
  then show "YearFromDay (MakeDay y m dt) = y + m div 12"
    by (simp add: md Y_def)
  have within: "DayWithinYear (DayFromYear Y + w) = w"
    by (simp add: DayWithinYear_def year)
  have month: "MonthFromDay (DayFromYear Y + w) = mm"
    unfolding MonthFromDay_def within year leap_def [symmetric] Let_def
    using mm leap assms by (elim disjE) (simp_all add: w_def monthStart_def)
  then show "MonthFromDay (MakeDay y m dt) = m mod 12"
    by (simp add: md mm_def)
  show "DateFromDay (MakeDay y m dt) = dt"
    unfolding md DateFromDay_def within year month leap_def [symmetric]
    by (simp add: w_def)
qed

text \<open>
  In a regular and orderly zone that has the time of day \<open>a\<close> on every day, the instants of the
  local times \<open>a\<close> of day \<open>d\<close> and \<open>b\<close> of day \<open>e\<close>, with \<open>a\<close> not after \<open>b\<close>, are
  in the order of the days.
\<close>

lemma grid_instant_le:
  assumes rz: "regular_zone tz" and oz: "orderly_zone tz" and ex: "time_of_day_exists tz a"
    and a: "0 \<le> a" "a < msPerDay" and b: "0 \<le> b" "b < msPerDay" and ab: "a \<le> b"
  shows "(UTC tz (MakeDate d a) \<le> UTC tz (MakeDate e b)) = (d \<le> e)"
proof -
  from rz have cut: "(UTC tz (d * msPerDay) \<le> t) = (d \<le> Day (LocalTime tz t))" for d t
    by (simp add: regular_zone_def)
  from oz have same: "Day (LocalTime tz (UTC tz l)) = Day l" for l
    by (simp add: orderly_zone_def)
  from oz have mono: "UTC tz l \<le> UTC tz m" if "l \<le> m" "LocalTime tz (UTC tz l) = l" for l m
    using that unfolding orderly_zone_def by blast
  have la: "LocalTime tz (UTC tz (MakeDate d a)) = MakeDate d a"
    using ex by (simp add: time_of_day_exists_def)
  have da: "Day (LocalTime tz (UTC tz (MakeDate d a))) = d"
    by (simp add: la Day_MakeDate a)
  have db: "Day (LocalTime tz (UTC tz (MakeDate e b))) = e"
    by (simp add: same Day_MakeDate b)
  consider "d < e" | "d = e" | "e < d"
    by arith
  then show ?thesis
  proof cases
    case 1
    have "\<not> UTC tz ((d + 1) * msPerDay) \<le> UTC tz (MakeDate d a)"
      by (simp add: cut da)
    moreover have "UTC tz ((d + 1) * msPerDay) \<le> UTC tz (MakeDate e b)"
      using 1 by (simp add: cut db)
    ultimately show ?thesis
      using 1 by simp
  next
    case 2
    have "MakeDate d a \<le> MakeDate e b"
      using 2 ab by (simp add: MakeDate_def)
    then have "UTC tz (MakeDate d a) \<le> UTC tz (MakeDate e b)"
      using la by (rule mono)
    with 2 show ?thesis
      by simp
  next
    case 3
    have "UTC tz (d * msPerDay) \<le> UTC tz (MakeDate d a)"
      by (simp add: cut da)
    moreover have "\<not> UTC tz (d * msPerDay) \<le> UTC tz (MakeDate e b)"
      using 3 by (simp add: cut db)
    ultimately show ?thesis
      using 3 by simp
  qed
qed

lemma grid_step:
  assumes "time_of_day_exists tz a"
  shows "UTC tz (LocalTime tz (UTC tz (MakeDate d a)) + msPerDay) = UTC tz (MakeDate (d + 1) a)"
proof -
  from assms have "LocalTime tz (UTC tz (MakeDate d a)) = MakeDate d a"
    by (simp add: time_of_day_exists_def)
  moreover have "MakeDate d a + msPerDay = MakeDate (d + 1) a"
    by (simp add: MakeDate_def algebra_simps)
  ultimately show ?thesis
    by simp
qed

lemma days_loop_cells:
  assumes rz: "regular_zone tz" and oz: "orderly_zone tz" and ex: "time_of_day_exists tz a"
    and a: "0 \<le> a" "a < msPerDay" and b: "0 \<le> b" "b < msPerDay" and ab: "a \<le> b"
  shows "n = nat (e - d + 1) \<Longrightarrow>
    days_loop tz loc (Date (UTC tz (MakeDate d a))) (Date (UTC tz (MakeDate e b))) acc =
      Some (acc @ map (\<lambda>k. formatDayCellData tz loc (Date (UTC tz (MakeDate (d + int k) a))))
                    [0..<n])"
proof (induction n arbitrary: d acc)
  case 0
  then have "\<not> d \<le> e"
    by simp
  then have "\<not> UTC tz (MakeDate d a) \<le> UTC tz (MakeDate e b)"
    by (simp add: grid_instant_le [OF rz oz ex a b ab])
  then show ?case
    by (simp add: days_loop_stop)
next
  case (Suc n)
  then have "d \<le> e"
    by simp
  then have le: "UTC tz (MakeDate d a) \<le> UTC tz (MakeDate e b)"
    by (simp add: grid_instant_le [OF rz oz ex a b ab])
  from Suc.prems have "n = nat (e - (d + 1) + 1)"
    by simp
  then have "days_loop tz loc (Date (UTC tz (MakeDate (d + 1) a))) (Date (UTC tz (MakeDate e b)))
        (acc @ [formatDayCellData tz loc (Date (UTC tz (MakeDate d a)))]) =
      Some ((acc @ [formatDayCellData tz loc (Date (UTC tz (MakeDate d a)))]) @
        map (\<lambda>k. formatDayCellData tz loc (Date (UTC tz (MakeDate (d + 1 + int k) a)))) [0..<n])"
    by (rule Suc.IH)
  moreover have "map (\<lambda>k. formatDayCellData tz loc (Date (UTC tz (MakeDate (d + int k) a))))
        [0..<Suc n] =
      formatDayCellData tz loc (Date (UTC tz (MakeDate d a))) #
        map (\<lambda>k. formatDayCellData tz loc (Date (UTC tz (MakeDate (d + 1 + int k) a)))) [0..<n]"
    by (simp add: upt_conv_Cons map_Suc_upt [symmetric] algebra_simps del: upt_Suc)
  ultimately show ?case
    using le by (simp add: days_loop_step grid_step [OF ex])
qed

text \<open>
  The grid in a regular and orderly zone: the cells are the local time of day of the first clock
  reading on the days from \<open>pastDays\<close> days before today to the day that
  \<^verbatim>\<open>setMonth\<close> makes of today's year, month plus \<open>futureMonths\<close>, and day of the month.
\<close>

lemma generateDaysArray_cells:
  assumes rz: "regular_zone tz" and oz: "orderly_zone tz"
    and ex: "time_of_day_exists tz (TimeWithinDay (LocalTime tz now1))"
    and f: "0 \<le> futureMonths"
    and day: "Day (LocalTime tz now1) = Day (LocalTime tz now2)"
    and le: "LocalTime tz now1 \<le> LocalTime tz now2"
  defines "D \<equiv> Day (LocalTime tz now1)"
  defines "E \<equiv> MakeDay (YearFromDay D) (MonthFromDay D + futureMonths) (DateFromDay D)"
  shows "generateDaysArray tz loc now1 now2 pastDays futureMonths =
      Some (map (\<lambda>k. formatDayCellData tz loc
                   (Date (UTC tz (MakeDate (D - pastDays + int k)
                                     (TimeWithinDay (LocalTime tz now1))))))
              [0..<nat (E - D + pastDays + 1)])"
    and "D \<le> E"
proof -
  define a where "a = TimeWithinDay (LocalTime tz now1)"
  define b where "b = TimeWithinDay (LocalTime tz now2)"
  have a: "0 \<le> a" "a < msPerDay" and b: "0 \<le> b" "b < msPerDay"
    using TimeWithinDay_range [of "LocalTime tz now1"] TimeWithinDay_range [of "LocalTime tz now2"]
    by (simp_all add: a_def b_def)
  have l1: "LocalTime tz now1 = MakeDate D a" and l2: "LocalTime tz now2 = MakeDate D b"
    using Day_TimeWithinDay [of "LocalTime tz now1"] Day_TimeWithinDay [of "LocalTime tz now2"] day
    by (simp_all add: MakeDate_def D_def a_def b_def)
  from le have ab: "a \<le> b"
    by (simp add: l1 l2 MakeDate_def)
  have start: "setDate tz (Date now1) (num_add (getDate tz (Date now1)) (- pastDays)) =
      Date (UTC tz (MakeDate (D - pastDays) a))"
    by (subst setDate_local) (simp add: l1 MakeDate_def algebra_simps)
  have endD: "setMonth tz (Date now2) (num_add (getMonth tz (Date now2)) futureMonths) =
      Date (UTC tz (MakeDate E b))"
    using day
    by (simp add: E_def D_def b_def YearFromTime_def MonthFromTime_def DateFromTime_def Let_def)
  have "MakeDay (YearFromDay D) (MonthFromDay D) (DateFromDay D) = D"
    using MakeDay_fields [of D 0] by simp
  then show DE: "D \<le> E"
    using MakeDay_month_mono [OF f, of "YearFromDay D" "MonthFromDay D" "DateFromDay D"]
    by (simp add: E_def)
  have "days_loop tz loc (Date (UTC tz (MakeDate (D - pastDays) a))) (Date (UTC tz (MakeDate E b))) [] =
      Some ([] @ map (\<lambda>k. formatDayCellData tz loc (Date (UTC tz (MakeDate (D - pastDays + int k) a))))
              [0..<nat (E - D + pastDays + 1)])"
    using rz oz ex [folded a_def] a b ab by (rule days_loop_cells) simp
  then show "generateDaysArray tz loc now1 now2 pastDays futureMonths =
      Some (map (\<lambda>k. formatDayCellData tz loc
                   (Date (UTC tz (MakeDate (D - pastDays + int k)
                                     (TimeWithinDay (LocalTime tz now1))))))
              [0..<nat (E - D + pastDays + 1)])"
    unfolding generateDaysArray_def Let_def start endD by (simp add: a_def)
qed

lemma DateFromDay_pos: "1 \<le> DateFromDay d"
proof -
  have "0 \<le> DayWithinYear d"
    using YearFromDay_spec [of d] by (simp add: DayWithinYear_def)
  moreover have "0 \<le> InLeapYear (YearFromDay d)"
    by (simp add: InLeapYear_def)
  ultimately show ?thesis
    by (simp add: DateFromDay_def MonthFromDay_def monthStart_def Let_def)
qed

lemma MakeDay_date: "MakeDay y m d - k = MakeDay y m (d - k)"
  by (simp add: MakeDay_def Let_def)

text \<open>
  The grid of days where the zone is regular and orderly.  \<open>generateDaysArray\<close> reads the clock
  twice; let the two readings fall on the same local day, today, the second not
  earlier in local time than the first, let the zone have the time of day of the
  first reading on every day (no change of the offset skips it), and let \<open>pastDays\<close>
  and \<open>futureMonths\<close> be non-negative.  Then the function returns a list that is not
  empty; its element \<open>i\<close> is on the calendar day \<open>i - pastDays\<close> days from today, so
  the days are consecutive and begin at today minus \<open>pastDays\<close>; each element is a
  later instant than the one before it; the last element is on the day of today plus
  \<open>futureMonths\<close> months, which is as many days after the first day of that month
  as today is after the first day of its month (and is the day of that month with
  today's day of the month, where every month has it); and \<open>findDayIndex\<close> of the
  date of each element is the position of that element.
\<close>

theorem generateDaysArray_consecutive:
  assumes "regular_zone tz" and "orderly_zone tz"
    and "time_of_day_exists tz (TimeWithinDay (LocalTime tz now1))"
    and "0 \<le> pastDays" and "0 \<le> futureMonths"
    and "Day (LocalTime tz now1) = Day (LocalTime tz now2)"
    and "LocalTime tz now1 \<le> LocalTime tz now2"
  shows
    "\<exists>days. generateDaysArray tz loc now1 now2 pastDays futureMonths = Some days \<and>
      days \<noteq> [] \<and>
      (\<forall>i < length days.
         local_day tz (date (days ! i)) = Some (Day (LocalTime tz now1) - pastDays + int i)) \<and>
      (\<forall>i. Suc i < length days \<longrightarrow> date_lt (date (days ! i)) (date (days ! Suc i))) \<and>
      (\<exists>e. local_day tz (date (last days)) = Some e \<and>
         YearFromDay (e - (DateFromDay (Day (LocalTime tz now1)) - 1)) =
           YearFromDay (Day (LocalTime tz now1))
             + (MonthFromDay (Day (LocalTime tz now1)) + futureMonths) div 12 \<and>
         MonthFromDay (e - (DateFromDay (Day (LocalTime tz now1)) - 1)) =
           (MonthFromDay (Day (LocalTime tz now1)) + futureMonths) mod 12 \<and>
         DateFromDay (e - (DateFromDay (Day (LocalTime tz now1)) - 1)) = 1 \<and>
         (DateFromDay (Day (LocalTime tz now1)) \<le> 28 \<longrightarrow>
            YearFromDay e = YearFromDay (Day (LocalTime tz now1))
              + (MonthFromDay (Day (LocalTime tz now1)) + futureMonths) div 12 \<and>
            MonthFromDay e = (MonthFromDay (Day (LocalTime tz now1)) + futureMonths) mod 12 \<and>
            DateFromDay e = DateFromDay (Day (LocalTime tz now1)))) \<and>
      (\<forall>i < length days. findDayIndex tz (date (days ! i)) days = int i)"
proof -
  define D where "D = Day (LocalTime tz now1)"
  define a where "a = TimeWithinDay (LocalTime tz now1)"
  define E where "E = MakeDay (YearFromDay D) (MonthFromDay D + futureMonths) (DateFromDay D)"
  define n where "n = nat (E - D + pastDays + 1)"
  define cell where
    "cell k = formatDayCellData tz loc (Date (UTC tz (MakeDate (D - pastDays + int k) a)))" for k
  define days where "days = map cell [0..<n]"
  have a: "0 \<le> a" "a < msPerDay"
    using TimeWithinDay_range [of "LocalTime tz now1"] by (simp_all add: a_def)
  have ex: "time_of_day_exists tz a"
    using assms(3) by (simp add: a_def)
  have grid: "generateDaysArray tz loc now1 now2 pastDays futureMonths = Some days"
    unfolding days_def cell_def [abs_def] n_def E_def D_def a_def
    using assms(1,2,3,5,6,7) by (rule generateDaysArray_cells(1))
  have DE: "D \<le> E"
    unfolding E_def D_def using assms(1,2,3,5,6,7) by (rule generateDaysArray_cells(2))
  have len: "length days = n"
    by (simp add: days_def)
  have nth: "days ! i = cell i" if "i < n" for i
    using that by (simp add: days_def)
  have date_cell: "date (cell k) = Date (UTC tz (MakeDate (D - pastDays + int k) a))" for k
    by (simp add: cell_def)
  have n_pos: "0 < n" and n_int: "int n = E - D + pastDays + 1"
    using DE assms(4) by (simp_all add: n_def)
  have local: "LocalTime tz (UTC tz (MakeDate d a)) = MakeDate d a" for d
    using ex by (simp add: time_of_day_exists_def)
  have day_cell: "local_day tz (date (cell k)) = Some (D - pastDays + int k)" for k
    by (simp add: date_cell local Day_MakeDate a)
  have nonempty: "days \<noteq> []"
    using n_pos len by auto
  have consecutive:
    "\<forall>i < length days. local_day tz (date (days ! i)) = Some (D - pastDays + int i)"
    by (simp add: len nth day_cell)
  have increasing: "\<forall>i. Suc i < length days \<longrightarrow> date_lt (date (days ! i)) (date (days ! Suc i))"
  proof (intro allI impI)
    fix i
    assume "Suc i < length days"
    then have i: "i < n" "Suc i < n"
      by (simp_all add: len)
    have "\<not> UTC tz (MakeDate (D - pastDays + int (Suc i)) a)
        \<le> UTC tz (MakeDate (D - pastDays + int i) a)"
      by (simp add: grid_instant_le [OF assms(1,2) ex a a])
    then show "date_lt (date (days ! i)) (date (days ! Suc i))"
      unfolding nth [OF i(1)] nth [OF i(2)] date_cell by simp
  qed
  have last: "local_day tz (date (last days)) = Some E"
  proof -
    have "last days = days ! (n - 1)"
      using nonempty len by (simp add: last_conv_nth)
    also have "\<dots> = cell (n - 1)"
      using n_pos by (intro nth) simp
    finally have "local_day tz (date (last days)) = Some (D - pastDays + int (n - 1))"
      by (simp only: day_cell)
    moreover have "int (n - 1) = E - D + pastDays"
      using n_pos n_int by simp
    ultimately show ?thesis
      by simp
  qed
  have first_of_month: "E - (DateFromDay D - 1) = MakeDay (YearFromDay D) (MonthFromDay D + futureMonths) 1"
    by (simp add: E_def MakeDay_date)
  have pin1: "YearFromDay (E - (DateFromDay D - 1)) =
        YearFromDay D + (MonthFromDay D + futureMonths) div 12"
      "MonthFromDay (E - (DateFromDay D - 1)) = (MonthFromDay D + futureMonths) mod 12"
      "DateFromDay (E - (DateFromDay D - 1)) = 1"
    unfolding first_of_month by (rule MakeDay_valid; simp)+
  have pin2: "YearFromDay E = YearFromDay D + (MonthFromDay D + futureMonths) div 12 \<and>
      MonthFromDay E = (MonthFromDay D + futureMonths) mod 12 \<and>
      DateFromDay E = DateFromDay D" if "DateFromDay D \<le> 28"
    unfolding E_def using DateFromDay_pos [of D] that by (intro conjI MakeDay_valid)
  have index: "\<forall>i < length days. findDayIndex tz (date (days ! i)) days = int i"
  proof (intro allI impI)
    fix i
    assume "i < length days"
    then have i: "i < n"
      by (simp add: len)
    have same: "isSameDay tz (date (cell j)) (date (cell k)) \<longleftrightarrow> j = k" for j k
      by (simp add: date_cell isSameDay_iff local Day_MakeDate a)
    have "findIndex (\<lambda>c. isSameDay tz (date c) (date (days ! i))) days = int i"
    proof (rule findIndex_first)
      show "i < length days"
        by fact
      show "isSameDay tz (date (days ! i)) (date (days ! i))"
        by (simp add: nth [OF i] same)
      show "\<forall>j < i. \<not> isSameDay tz (date (days ! j)) (date (days ! i))"
        using i by (simp add: nth same)
    qed
    then show "findDayIndex tz (date (days ! i)) days = int i"
      by (simp add: findDayIndex_def)
  qed
  from grid nonempty consecutive increasing last pin1 pin2 index show ?thesis
    unfolding D_def [symmetric] by blast
qed

text \<open>
  The witness, in the zone Europe/Rome: the grid of 10 June 2024, 10:00, ten days
  back and six months ahead, which holds the end of summer time on 27 October.
\<close>

theorem generateDaysArray_consecutive_witness:
  "regular_zone Europe_Rome_2024 \<and> orderly_zone Europe_Rome_2024 \<and>
   time_of_day_exists Europe_Rome_2024 (TimeWithinDay (LocalTime Europe_Rome_2024 1718006400000)) \<and>
   (0::int) \<le> 10 \<and> (0::int) \<le> 6 \<and>
   Day (LocalTime Europe_Rome_2024 1718006400000) = Day (LocalTime Europe_Rome_2024 1718006400000) \<and>
   LocalTime Europe_Rome_2024 1718006400000 \<le> LocalTime Europe_Rome_2024 1718006400000 \<and>
   (\<exists>days. generateDaysArray Europe_Rome_2024 (de_DE Europe_Rome_2024)
              1718006400000 1718006400000 10 6 = Some days \<and>
      days \<noteq> [] \<and>
      local_day Europe_Rome_2024 (date (last days)) = Some 20067 \<and>
      findDayIndex Europe_Rome_2024 (date (days ! 0)) days = int 0)"
proof -
  have l: "LocalTime Europe_Rome_2024 1718006400000 = 1718013600000"
    by (simp add: LocalTime_Rome)
  have d: "Day 1718013600000 = 19884" "TimeWithinDay 1718013600000 = 36000000"
    by (simp_all add: Day_def TimeWithinDay_def msPerDay_def)
  have f: "YearFromDay 19884 = 2024" "MonthFromDay 19884 = 5" "DateFromDay 19884 = 10"
    by (simp_all add: day_field_defs)
  have h1: "regular_zone Europe_Rome_2024"
    by (rule regular_Europe_Rome_2024)
  have h0: "orderly_zone Europe_Rome_2024"
    by (rule orderly_Europe_Rome_2024)
  have h2: "time_of_day_exists Europe_Rome_2024
      (TimeWithinDay (LocalTime Europe_Rome_2024 1718006400000))"
    unfolding l d by (rule time_of_day_exists_Rome) (simp_all add: msPerDay_def)
  have h3: "(0::int) \<le> 10" and h4: "(0::int) \<le> 6"
    by simp_all
  have h5: "Day (LocalTime Europe_Rome_2024 1718006400000)
      = Day (LocalTime Europe_Rome_2024 1718006400000)"
    and h6: "LocalTime Europe_Rome_2024 1718006400000 \<le> LocalTime Europe_Rome_2024 1718006400000"
    by simp_all
  from generateDaysArray_consecutive [OF h1 h0 h2 h3 h4 h5 h6, of "de_DE Europe_Rome_2024"]
  obtain days e where days:
    "generateDaysArray Europe_Rome_2024 (de_DE Europe_Rome_2024) 1718006400000 1718006400000 10 6
       = Some days"
    "days \<noteq> []"
    "local_day Europe_Rome_2024 (date (last days)) = Some e"
    "YearFromDay e = 2024 + (5 + 6) div 12 \<and> MonthFromDay e = (5 + 6) mod 12 \<and> DateFromDay e = 10"
    "\<forall>i < length days. findDayIndex Europe_Rome_2024 (date (days ! i)) days = int i"
    unfolding l d f by auto
  have g: "YearFromDay 20067 = 2024" "MonthFromDay 20067 = 11" "DateFromDay 20067 = 10"
    by (simp_all add: day_field_defs)
  from days(4) have "YearFromDay e = YearFromDay 20067" "MonthFromDay e = MonthFromDay 20067"
    "DateFromDay e = DateFromDay 20067"
    unfolding g by simp_all
  then have "e = 20067"
    by (rule day_of_fields)
  with days(3) have e: "local_day Europe_Rome_2024 (date (last days)) = Some 20067"
    by simp
  from days(2) have "0 < length days"
    by simp
  with days(5) have i: "findDayIndex Europe_Rome_2024 (date (days ! 0)) days = int 0"
    by blast
  from days(1,2) e i have "\<exists>days. generateDaysArray Europe_Rome_2024 (de_DE Europe_Rome_2024)
              1718006400000 1718006400000 10 6 = Some days \<and>
      days \<noteq> [] \<and>
      local_day Europe_Rome_2024 (date (last days)) = Some 20067 \<and>
      findDayIndex Europe_Rome_2024 (date (days ! 0)) days = int 0"
    by blast
  with h1 h0 h2 h3 h4 h5 h6 show ?thesis
    by blast
qed

section \<open>Further properties of the calendar\<close>

text \<open>
  The two equalities that \<open>isIntervalAvailableForzimmer\<close> tolerates are never met:
  for a room id that is neither null nor 0 and two instants that differ, the interval
  is available exactly when no booking of the room has \<open>start < bookingEnd\<close> and
  \<open>end > bookingStart\<close>.  An interval that ends at the instant at which a booking
  starts, or starts at the instant at which a booking ends, is not in the way of that
  booking because the overlap test itself is strict.
\<close>

theorem isIntervalAvailableForzimmer_overlap:
  assumes "z \<noteq> 0" and "\<not> num_eq (getTime s) (getTime e)"
  shows "isIntervalAvailableForzimmer tz (Some z) s e bookings \<longleftrightarrow>
    \<not> (\<exists>b \<in> set bookings. zimmer_id b = z \<and>
          date_lt s (parseDate tz (check_out b)) \<and>
          date_gt e (parseDate tz (check_in b)))"
  using assms by (simp add: isIntervalAvailableForzimmer_def booking_loop_overlap)

theorem isIntervalAvailableForzimmer_overlap_witness:
  "(1::int) \<noteq> 0 \<and>
   \<not> num_eq (getTime (new_Date_fields CEST 2024 5 15 0))
       (getTime (new_Date_fields CEST 2024 5 20 0)) \<and>
   isIntervalAvailableForzimmer CEST (Some 1)
     (new_Date_fields CEST 2024 5 15 0) (new_Date_fields CEST 2024 5 20 0)
     [booking 1 1 ''2024-06-10'' ''2024-06-15'']"
proof -
  have z: "(1::int) \<noteq> 0"
    by simp
  have ne: "\<not> num_eq (getTime (new_Date_fields CEST 2024 5 15 0))
       (getTime (new_Date_fields CEST 2024 5 20 0))"
    by (simp add: new_Date_fields_june CEST_def msPerDay_def)
  have "\<not> (\<exists>b \<in> set [booking 1 1 ''2024-06-10'' ''2024-06-15'']. zimmer_id b = 1 \<and>
          date_lt (new_Date_fields CEST 2024 5 15 0) (parseDate CEST (check_out b)) \<and>
          date_gt (new_Date_fields CEST 2024 5 20 0) (parseDate CEST (check_in b)))"
    by (simp add: booking_def new_Date_fields_june parseDate_0615 CEST_def msPerDay_def)
  with z ne isIntervalAvailableForzimmer_overlap [OF z ne, of CEST
      "[booking 1 1 ''2024-06-10'' ''2024-06-15'']"]
  show ?thesis
    by blast
qed

text \<open>
  A tap in another room than the selected one starts the selection anew in that
  room, whatever was selected: check-in and check-out are the tapped day.
\<close>

theorem handleDayPress_room_switch:
  assumes "selectedCheckIn st = Some checkIn" and "selectedzimmerId st \<noteq> Some z"
    and "z \<noteq> 0"
  shows "handleDayPress tz bs st day z = (selection day day z, None)"
proof -
  have "isIntervalAvailableForzimmer tz (Some z) (date day) (date day) bs"
    using assms(3) by (rule probe_available)
  with assms(1,2) show ?thesis
    by (simp add: handleDayPress_def selection_def)
qed

theorem handleDayPress_room_switch_witness:
  "selectedCheckIn (selection (june_cell CEST 12 36000000) (june_cell CEST 12 36000000) 1)
     = Some (june_cell CEST 12 36000000) \<and>
   selectedzimmerId (selection (june_cell CEST 12 36000000) (june_cell CEST 12 36000000) 1)
     \<noteq> Some 2 \<and>
   (2::int) \<noteq> 0 \<and>
   handleDayPress CEST [] (selection (june_cell CEST 12 36000000) (june_cell CEST 12 36000000) 1)
     (june_cell CEST 14 36000000) 2
   = (selection (june_cell CEST 14 36000000) (june_cell CEST 14 36000000) 2, None)"
proof -
  let ?st = "selection (june_cell CEST 12 36000000) (june_cell CEST 12 36000000) 1"
  have h1: "selectedCheckIn ?st = Some (june_cell CEST 12 36000000)"
    and h2: "selectedzimmerId ?st \<noteq> Some 2"
    by (simp_all add: selection_def)
  have h3: "(2::int) \<noteq> 0"
    by simp
  from h1 h2 h3 handleDayPress_room_switch [OF h1 h2 h3, of CEST "[]" "june_cell CEST 14 36000000"]
  show ?thesis
    by blast
qed

end
